theory Spec2Isabelle
  imports Complex_Main
begin

section \<open>Python strings and exceptions\<close>

text \<open>
  The restore driver \<^verbatim>\<open>tools/xstore/cli/restore.py\<close> is modelled function by function.
  A Python \<^verbatim>\<open>str\<close> is a \<^typ>\<open>string\<close>; every \<^verbatim>\<open>raise\<close> of the source and every
  exception of a built-in it calls is a value of \<open>error\<close>, returned as \<open>Inl\<close>.
\<close>

datatype error =
    Exception string
  | TimeoutError string
  | IndexError
  | ValueError
  | KeyError
  | FileNotFoundError string
  | SameFileError string
  | ProcessError int
  | TransferError string
  | AttributeError
  | TypeError

text \<open>
  The characters \<^verbatim>\<open>str.isspace\<close> accepts among the first 256 code points: they are what
  \<^verbatim>\<open>str.strip()\<close> and \<^verbatim>\<open>str.split()\<close> treat as whitespace.
\<close>

definition py_isspace :: "char \<Rightarrow> bool" where
  "py_isspace c \<longleftrightarrow>
     c \<in> {CHR 0x09, CHR 0x0A, CHR 0x0B, CHR 0x0C, CHR 0x0D, CHR 0x1C, CHR 0x1D, CHR 0x1E,
          CHR 0x1F, CHR 0x20, CHR 0x85, CHR 0xA0}"

text \<open>\<^verbatim>\<open>s.strip(chars)\<close>: drop the characters satisfying \<open>p\<close> from both ends.\<close>

definition py_strip_by :: "(char \<Rightarrow> bool) \<Rightarrow> string \<Rightarrow> string" where
  "py_strip_by p s = rev (dropWhile p (rev (dropWhile p s)))"

definition py_strip :: "string \<Rightarrow> string" where
  "py_strip s = py_strip_by py_isspace s"

text \<open>
  \<^verbatim>\<open>s.split()\<close> with no separator: the maximal runs of non-whitespace characters, in
  order. \<open>cur\<close> is the token being read.
\<close>

fun split_ws :: "string \<Rightarrow> string \<Rightarrow> string list" where
  "split_ws cur [] = (if cur = [] then [] else [cur])"
| "split_ws cur (c # cs) =
     (if py_isspace c then (if cur = [] then split_ws [] cs else cur # split_ws [] cs)
      else split_ws (cur @ [c]) cs)"

definition py_split :: "string \<Rightarrow> string list" where
  "py_split s = split_ws [] s"

section \<open>The local recovery marker\<close>

text \<open>
  \<^verbatim>\<open>get_xtrabackup_binlog_info_from_instance_local\<close>. The argument is the text of
  \<^verbatim>\<open>xtrabackup_binlog_info\<close> in the data directory as \<^verbatim>\<open>f.read()\<close> gives it, \<open>None\<close> when
  \<^verbatim>\<open>os.path.exists\<close> is false. The result is Python's \<^verbatim>\<open>None\<close> or a string; falling off
  the end of the function (an empty \<^verbatim>\<open>binlog_info\<close>) returns \<^verbatim>\<open>None\<close>.
\<close>

definition get_xtrabackup_binlog_info_from_instance_local ::
  "string option \<Rightarrow> error + string option" where
  "get_xtrabackup_binlog_info_from_instance_local marker =
     (case marker of
        None \<Rightarrow> Inr None
      | Some text \<Rightarrow>
          (let binlog_info = py_strip text in
           if binlog_info \<noteq> [] then
             (let str_list = py_split binlog_info in
              if length str_list \<ge> 2 then Inr (Some (str_list ! 1))
              else (case str_list of [] \<Rightarrow> Inl IndexError | t # _ \<Rightarrow> Inr (Some t)))
           else Inr None))"

text \<open>
  \<^verbatim>\<open>s.split(sep)\<close> for a separator of one character: the pieces between the
  occurrences of \<open>sep\<close>, empty pieces included, so the result is never empty.
\<close>

fun split_sep :: "char \<Rightarrow> string \<Rightarrow> string list" where
  "split_sep sep [] = [[]]"
| "split_sep sep (c # cs) =
     (if c = sep then [] # split_sep sep cs
      else (case split_sep sep cs of [] \<Rightarrow> [[c]] | p # ps \<Rightarrow> (c # p) # ps))"

text \<open>\<^verbatim>\<open>xs[i]\<close>: a negative index counts from the end, an index out of range raises.\<close>

definition py_index :: "'a list \<Rightarrow> int \<Rightarrow> error + 'a" where
  "py_index xs i =
     (if 0 \<le> i \<and> i < int (length xs) then Inr (xs ! nat i)
      else if i < 0 \<and> - i \<le> int (length xs) then Inr (xs ! nat (int (length xs) + i))
      else Inl IndexError)"

text \<open>
  \<^verbatim>\<open>int(s)\<close> on a string, base ten: whitespace around the number is dropped, one sign
  may lead, and single underscores may stand between digits. \<open>None\<close> is the
  \<^verbatim>\<open>ValueError\<close>. The whitespace \<^verbatim>\<open>int\<close> drops is not that of \<^verbatim>\<open>str.strip()\<close>: the
  conversion skips the six ASCII blanks and the non-ASCII spaces, and stops with an error
  at the separators \<^verbatim>\<open>\x1c\<close> to \<^verbatim>\<open>\x1f\<close>. (The interpreter's limit on the number of digits is
  not modelled.)
\<close>

definition int_isspace :: "char \<Rightarrow> bool" where
  "int_isspace c \<longleftrightarrow>
     c \<in> {CHR 0x09, CHR 0x0A, CHR 0x0B, CHR 0x0C, CHR 0x0D, CHR 0x20, CHR 0x85, CHR 0xA0}"

definition py_isdigit :: "char \<Rightarrow> bool" where
  "py_isdigit c \<longleftrightarrow> c \<in> set ''0123456789''"

definition digit_val :: "char \<Rightarrow> nat" where
  "digit_val c = of_char c - 48"

fun int_digits :: "nat \<Rightarrow> string \<Rightarrow> nat option" where
  "int_digits acc [] = Some acc"
| "int_digits acc [c] = (if py_isdigit c then Some (10 * acc + digit_val c) else None)"
| "int_digits acc (c # d # cs) =
     (if py_isdigit c then int_digits (10 * acc + digit_val c) (d # cs)
      else if c = CHR ''_'' \<and> py_isdigit d then int_digits acc (d # cs)
      else None)"

definition int_unsigned :: "string \<Rightarrow> nat option" where
  "int_unsigned s =
     (case s of [] \<Rightarrow> None | c # _ \<Rightarrow> if py_isdigit c then int_digits 0 s else None)"

definition py_int :: "string \<Rightarrow> int option" where
  "py_int s =
     (case py_strip_by int_isspace s of
        [] \<Rightarrow> None
      | c # r \<Rightarrow>
          if c = CHR ''+'' then map_option int (int_unsigned r)
          else if c = CHR ''-'' then map_option (\<lambda>n. - int n) (int_unsigned r)
          else map_option int (int_unsigned (c # r)))"

section \<open>The index-inspection tool's output\<close>

text \<open>
  \<^verbatim>\<open>xdb_show_binlog_index\<close>, from the text the tool printed (\<^verbatim>\<open>index_info\<close>, the decoded
  standard output of \<^verbatim>\<open>mysqlbinlogtailor --show-index-info\<close>; the tool's exit status is
  not looked at). The two results are the strings the source returns.
\<close>

definition is_bracket :: "char \<Rightarrow> bool" where
  "is_bracket c \<longleftrightarrow> c = CHR ''['' \<or> c = CHR '']''"

definition xdb_show_binlog_index :: "string \<Rightarrow> error + string \<times> string" where
  "xdb_show_binlog_index index_info =
     (let temp = filter (\<lambda>c. c \<noteq> CHR '' '') (py_strip_by is_bracket (py_strip index_info)) in
      case py_index (split_sep CHR '','' temp) 1 of
        Inl e \<Rightarrow> Inl e
      | Inr second \<Rightarrow>
          (case py_index (split_sep CHR '':'' second) 0 of
             Inl e \<Rightarrow> Inl e
           | Inr end_index \<Rightarrow>
               (case py_index (split_sep CHR '':'' second) 1 of
                  Inl e \<Rightarrow> Inl e
                | Inr end_term \<Rightarrow> Inr (end_index, end_term))))"

section \<open>The catch-up readiness check\<close>

text \<open>
  \<^verbatim>\<open>check_binlog_apply_index_status\<close>, from what \<^verbatim>\<open>execute_mysqlcmd\<close> returned: the pair
  \<^verbatim>\<open>(stat, output)\<close>, of which only \<^verbatim>\<open>output\<close> is read. \<open>check_rows\<close> is the \<^verbatim>\<open>for\<close> loop:
  each row is split at tabs, \<^verbatim>\<open>columns[-3]\<close> is read (when logged), converted, and
  compared with the converted target; the first row below the target ends the loop.
\<close>

fun check_rows :: "string list \<Rightarrow> string \<Rightarrow> error + bool" where
  "check_rows [] end_log_index = Inr True"
| "check_rows (row # rows) end_log_index =
     (let columns = split_sep (CHR 0x09) row in
      case py_index columns (- 3) of
        Inl e \<Rightarrow> Inl e
      | Inr col \<Rightarrow>
          (case py_int col of
             None \<Rightarrow> Inl ValueError
           | Some applied \<Rightarrow>
               (case py_int end_log_index of
                  None \<Rightarrow> Inl ValueError
                | Some target \<Rightarrow>
                    if applied < target then Inr False else check_rows rows end_log_index)))"

definition check_binlog_apply_index_status :: "int \<times> string \<Rightarrow> string \<Rightarrow> error + bool" where
  "check_binlog_apply_index_status result end_log_index =
     (let output = snd result in
      if output = [] then Inl (Exception ''can not get xdb full health info'')
      else check_rows (split_sep (CHR 0x0A) output) end_log_index)"


section \<open>Files, paths and the environment\<close>

text \<open>
  \<^verbatim>\<open>os.path.join(a, b)\<close> on POSIX: an absolute \<open>b\<close> replaces \<open>a\<close>; otherwise the two are
  joined by one slash, unless \<open>a\<close> is empty or ends with one already.
\<close>

definition os_path_join :: "string \<Rightarrow> string \<Rightarrow> string" where
  "os_path_join a b =
     (if b \<noteq> [] \<and> hd b = CHR ''/'' then b
      else if a = [] \<or> last a = CHR ''/'' then a @ b
      else a @ ''/'' @ b)"

definition RESTORE_TEMP_DIR :: string where
  "RESTORE_TEMP_DIR = ''/data/mysql/restore''"

text \<open>
  Reading a file opened in text mode translates \<^verbatim>\<open>\r\n\<close> and \<^verbatim>\<open>\r\<close> to \<^verbatim>\<open>\n\<close>.
\<close>

fun universal_newlines :: "string \<Rightarrow> string" where
  "universal_newlines [] = []"
| "universal_newlines [c] = (if c = CHR 0x0D then [CHR 0x0A] else [c])"
| "universal_newlines (c # d # cs) =
     (if c = CHR 0x0D \<and> d = CHR 0x0A then CHR 0x0A # universal_newlines cs
      else if c = CHR 0x0D then CHR 0x0A # universal_newlines (d # cs)
      else c # universal_newlines (d # cs))"

text \<open>\<^verbatim>\<open>f.readlines()\<close>: the lines of the text read, each with its newline.\<close>

fun lines_keepends :: "string \<Rightarrow> string \<Rightarrow> string list" where
  "lines_keepends cur [] = (if cur = [] then [] else [cur])"
| "lines_keepends cur (c # cs) =
     (if c = CHR 0x0A then (cur @ [c]) # lines_keepends [] cs
      else lines_keepends (cur @ [c]) cs)"

definition py_readlines :: "string \<Rightarrow> string list" where
  "py_readlines text = lines_keepends [] text"

text \<open>
  \<^verbatim>\<open>s.splitlines()\<close>: the lines without their ends; among the first 256 code points a line
  ends at any of the characters of \<open>is_linebreak\<close>, and \<^verbatim>\<open>\r\n\<close> is one line end.
\<close>

definition is_linebreak :: "char \<Rightarrow> bool" where
  "is_linebreak c \<longleftrightarrow>
     c \<in> {CHR 0x0A, CHR 0x0B, CHR 0x0C, CHR 0x0D, CHR 0x1C, CHR 0x1D, CHR 0x1E, CHR 0x85}"

fun splitlines :: "string \<Rightarrow> string \<Rightarrow> string list" where
  "splitlines cur [] = (if cur = [] then [] else [cur])"
| "splitlines cur [c] = (if is_linebreak c then [cur] else [cur @ [c]])"
| "splitlines cur (c # d # cs) =
     (if c = CHR 0x0D \<and> d = CHR 0x0A then cur # splitlines [] cs
      else if is_linebreak c then cur # splitlines [] (d # cs)
      else splitlines (cur @ [c]) (d # cs))"

definition py_splitlines :: "string \<Rightarrow> string list" where
  "py_splitlines text = splitlines [] text"

text \<open>
  Modelled from the spec: \<^verbatim>\<open>NODE_ROLE_CANDIDATE\<close>, \<^verbatim>\<open>NODE_ROLE_LEARNER\<close> and
  \<^verbatim>\<open>NODE_ROLE_VOTER\<close> are constants of \<^verbatim>\<open>core.convention\<close>, which is not among the sources.
  The spec gives a node's role as one of Candidate, Learner, Voter, or another value.
\<close>

datatype node_role = Candidate | Learner | Voter | OtherRole string

text \<open>The values a field of the restore descriptor (a JSON object) can hold here.\<close>

datatype json = JNull | JNumber int | JString string

text \<open>
  The external programs the driver runs, by what they are rather than by their command
  lines: the paths in the command lines come from the node context and are fixed for a
  run. \<open>ShowIndexInfo n\<close> inspects \<^verbatim>\<open>mysql_bin.%06d % n\<close> in the log directory;
  \<open>ForceInitMeta term index\<close> carries the values of \<^verbatim>\<open>--cluster-current-term\<close> and of
  \<^verbatim>\<open>--cluster-start-index\<close> (also \<^verbatim>\<open>--loose-cluster-force-recover-index\<close>) before \<^verbatim>\<open>str()\<close>;
  \<open>ShellEmpty\<close> is the empty command line \<^verbatim>\<open>apply_backup_file\<close> runs for an engine that is
  neither edition.
\<close>

datatype command =
    ShellDecompress string
  | ShellPrepare
  | ShellApplyLog
  | ShellEmpty
  | ChownDataDir
  | ShowIndexInfo int
  | ForceInitMeta string json
  | Mysqld
  | SyncMeta

text \<open>What a run does to the world outside the process, in order.\<close>

datatype event =
    Mkdir string
  | Chown string
  | Download string string
  | Exec command
  | Spawn command
  | Kill
  | WaitExit
  | Copy string string
  | Write string
  | Sleep nat
  | Query
  | MarkInitialized

text \<open>
  The node context (\<^verbatim>\<open>core.context.Context\<close>, read only): the role, the four directories
  of \<^verbatim>\<open>volume_path(VOLUME_DATA, _)\<close>, the configuration paths, the reset indicator and the
  engine edition.
\<close>

record node_context =
  ctx_node_role :: node_role
  ctx_data_dir :: string
  ctx_log_dir :: string
  ctx_tmp_dir :: string
  ctx_run_dir :: string
  ctx_mysql_conf :: string
  ctx_mycnf_path :: string
  ctx_mycnf_override_path :: string
  ctx_reset_config :: bool
  ctx_is_galaxy80 :: bool
  ctx_is_xcluster57 :: bool

text \<open>
  What the environment answers during a run: whether \<^verbatim>\<open>BackupStorage\<close> has the storage
  name, the remote objects (\<open>None\<close>: the transfer fails), what a program does to the files
  and its exit status, what it prints, the rendered configuration texts, the successive
  readings of \<^verbatim>\<open>time.time()\<close> inside the monitor, and the successive answers of
  \<^verbatim>\<open>execute_mysqlcmd\<close> (the pair of a status and the rows joined by newlines, or of 1 and
  the text of the exception it caught).
\<close>

record world =
  backup_storage :: "string \<Rightarrow> bool"
  remote :: "string \<rightharpoonup> string"
  run :: "command \<Rightarrow> (string \<rightharpoonup> string) \<Rightarrow> (string \<rightharpoonup> string) \<times> int"
  stdout :: "command \<Rightarrow> (string \<rightharpoonup> string) \<Rightarrow> string"
  override_text :: string
  render_mycnf :: "string \<Rightarrow> string"
  clock :: "nat \<Rightarrow> real"
  poll :: "nat \<Rightarrow> int \<times> string"

text \<open>
  The state a run changes: regular files with their texts, directories, effects so far.
  Files and directories are kept under the resolved path, so that two spellings of a path
  are one file.
\<close>

record sys =
  files :: "string \<rightharpoonup> string"
  dirs :: "string set"
  trace :: "event list"

text \<open>
  The file a path names, as the system resolves the text of the path (links are not
  modelled): empty components and \<^verbatim>\<open>.\<close> are dropped, \<^verbatim>\<open>..\<close> steps back to the parent, and
  stays at the root of an absolute path.
\<close>

fun norm_comps :: "bool \<Rightarrow> string list \<Rightarrow> string list \<Rightarrow> string list" where
  "norm_comps absolute stack [] = rev stack"
| "norm_comps absolute stack (c # cs) =
     (if c = [] \<or> c = ''.'' then norm_comps absolute stack cs
      else if c = ''..'' then
        (case stack of
           [] \<Rightarrow> if absolute then norm_comps absolute [] cs else norm_comps absolute [c] cs
         | parent # below \<Rightarrow>
             if parent = ''..'' then norm_comps absolute (c # stack) cs
             else norm_comps absolute below cs)
      else norm_comps absolute (c # stack) cs)"

fun join_slash :: "string list \<Rightarrow> string" where
  "join_slash [] = []"
| "join_slash [c] = c"
| "join_slash (c # d # cs) = c @ ''/'' @ join_slash (d # cs)"

definition resolve :: "string \<Rightarrow> string" where
  "resolve p =
     (let absolute = (p \<noteq> [] \<and> hd p = CHR ''/'')
      in (if absolute then ''/'' else []) @ join_slash (norm_comps absolute [] (split_sep CHR ''/'' p)))"

definition file_at :: "sys \<Rightarrow> string \<Rightarrow> string option" where
  "file_at s p = files s (resolve p)"

definition put_file :: "string \<Rightarrow> string \<Rightarrow> sys \<Rightarrow> sys" where
  "put_file p t s = s\<lparr>files := (files s)(resolve p \<mapsto> t)\<rparr>"

definition emit :: "event \<Rightarrow> sys \<Rightarrow> sys" where
  "emit e s = s\<lparr>trace := trace s @ [e]\<rparr>"

definition path_exists :: "sys \<Rightarrow> string \<Rightarrow> bool" where
  "path_exists s p \<longleftrightarrow> resolve p \<in> dirs s \<or> file_at s p \<noteq> None"

definition read_text :: "sys \<Rightarrow> string \<Rightarrow> error + string" where
  "read_text s p =
     (case file_at s p of None \<Rightarrow> Inl (FileNotFoundError p) | Some t \<Rightarrow> Inr (universal_newlines t))"

text \<open>Sequencing: an exception ends the computation with the state reached.\<close>

definition bind_io ::
  "(sys \<Rightarrow> (error + 'a) \<times> sys) \<Rightarrow> ('a \<Rightarrow> sys \<Rightarrow> (error + 'b) \<times> sys) \<Rightarrow> sys \<Rightarrow> (error + 'b) \<times> sys" where
  "bind_io m f s = (case m s of (Inl e, s') \<Rightarrow> (Inl e, s') | (Inr a, s') \<Rightarrow> f a s')"

text \<open>Running a program to completion: its effect on the files, and its exit status.\<close>

definition run_process :: "world \<Rightarrow> command \<Rightarrow> sys \<Rightarrow> int \<times> sys" where
  "run_process w cmd s =
     (let (fs, status) = run w cmd (files s)
      in (status, emit (Exec cmd) (s\<lparr>files := fs\<rparr>)))"

text \<open>
  Modelled from the spec: \<^verbatim>\<open>check_run_process\<close> of \<^verbatim>\<open>core.backup_restore.utils\<close> is not among
  the sources. The spec: these invocations are run-to-completion child processes, and a
  non-zero exit is fatal.
\<close>

definition check_run_process :: "world \<Rightarrow> command \<Rightarrow> sys \<Rightarrow> (error + unit) \<times> sys" where
  "check_run_process w cmd s =
     (let (status, s') = run_process w cmd s
      in if status \<noteq> 0 then (Inl (ProcessError status), s') else (Inr (), s'))"

text \<open>
  \<^verbatim>\<open>FileStreamClient.download_to_file\<close> (external): the object's text arrives at the
  local path, or the transfer fails.
\<close>

definition download_to_file :: "world \<Rightarrow> string \<Rightarrow> string \<Rightarrow> sys \<Rightarrow> (error + unit) \<times> sys" where
  "download_to_file w remote_path local s =
     (case remote w remote_path of
        None \<Rightarrow> (Inl (TransferError remote_path), s)
      | Some text \<Rightarrow> (Inr (), emit (Download remote_path local) (put_file local text s)))"

section \<open>The restore phases\<close>

text \<open>
  Each phase of \<^verbatim>\<open>restore.py\<close> under its own name. Logging is left out. Of the library
  calls, \<^verbatim>\<open>os.mkdir\<close> and \<^verbatim>\<open>shutil.chown\<close> are taken to succeed, and the destination of
  \<^verbatim>\<open>shutil.copy\<close> is taken not to be a directory.
\<close>

definition mkdir_if_missing :: "string \<Rightarrow> sys \<Rightarrow> sys" where
  "mkdir_if_missing p s =
     (if path_exists s p then s else emit (Mkdir p) (s\<lparr>dirs := insert (resolve p) (dirs s)\<rparr>))"

definition shutil_chown :: "string \<Rightarrow> sys \<Rightarrow> sys" where
  "shutil_chown p s = emit (Chown p) s"

definition mkdir_needed :: "node_context \<Rightarrow> sys \<Rightarrow> sys" where
  "mkdir_needed ctx s =
     (let s = mkdir_if_missing RESTORE_TEMP_DIR s;
          s = mkdir_if_missing (ctx_data_dir ctx) s;
          s = mkdir_if_missing (ctx_log_dir ctx) s;
          s = mkdir_if_missing (ctx_tmp_dir ctx) s;
          s = mkdir_if_missing (ctx_run_dir ctx) s;
          s = shutil_chown (ctx_data_dir ctx) s;
          s = shutil_chown (ctx_log_dir ctx) s;
          s = shutil_chown (ctx_tmp_dir ctx) s
      in shutil_chown (ctx_run_dir ctx) s)"

definition download_backup_file ::
  "world \<Rightarrow> string \<Rightarrow> string \<Rightarrow> sys \<Rightarrow> (error + unit) \<times> sys" where
  "download_backup_file w backup_file_path backup_file_name s =
     download_to_file w backup_file_path (os_path_join RESTORE_TEMP_DIR backup_file_name) s"

fun download_each :: "world \<Rightarrow> string \<Rightarrow> string list \<Rightarrow> sys \<Rightarrow> (error + unit) \<times> sys" where
  "download_each w binlog_dir_path [] s = (Inr (), s)"
| "download_each w binlog_dir_path (binlog # rest) s =
     (case download_to_file w (os_path_join binlog_dir_path binlog)
             (os_path_join RESTORE_TEMP_DIR binlog) s of
        (Inl e, s') \<Rightarrow> (Inl e, s')
      | (Inr _, s') \<Rightarrow> download_each w binlog_dir_path rest s')"

text \<open>
  \<^verbatim>\<open>download_binlogbackup_file\<close>: \<^verbatim>\<open>os.path.join\<close> raises \<^verbatim>\<open>TypeError\<close> on a directory
  path that is not a string.
\<close>

definition download_binlogbackup_file ::
  "world \<Rightarrow> json \<Rightarrow> sys \<Rightarrow> (error + string list) \<times> sys" where
  "download_binlogbackup_file w binlog_dir_path s =
     (case binlog_dir_path of
        JString dir \<Rightarrow>
          (let binlog_list_path = os_path_join RESTORE_TEMP_DIR ''binlog_list'' in
           bind_io (download_to_file w (os_path_join dir ''binlog_list'') binlog_list_path)
             (\<lambda>_. bind_io (\<lambda>s. (read_text s binlog_list_path, s))
               (\<lambda>text. bind_io (download_each w dir (py_splitlines text))
                 (\<lambda>_ s. (Inr (py_splitlines text), s)))) s)
      | _ \<Rightarrow> (Inl TypeError, s))"

text \<open>
  \<^verbatim>\<open>shutil.copy\<close>: the source must be there, and source and destination must not be the
  same file; the destination then holds the source's text, whatever it held before.
\<close>

definition shutil_copy :: "string \<Rightarrow> string \<Rightarrow> sys \<Rightarrow> (error + unit) \<times> sys" where
  "shutil_copy src dst s =
     (case file_at s src of
        None \<Rightarrow> (Inl (FileNotFoundError src), s)
      | Some text \<Rightarrow>
          if resolve src = resolve dst then (Inl (SameFileError src), s)
          else (Inr (), emit (Copy src dst) (put_file dst text s)))"

text \<open>
  The loop of \<^verbatim>\<open>copy_binlog_to_new_path\<close>. \<open>buf\<close> is what has been written to the open
  index file so far: the file object buffers it until the file is closed (a text longer
  than the buffer, 8192 bytes, would reach the file earlier; that is not modelled).
\<close>

fun copy_each :: "string \<Rightarrow> string list \<Rightarrow> string \<Rightarrow> sys \<Rightarrow> (error + unit) \<times> string \<times> sys" where
  "copy_each log_dir [] buf s = (Inr (), buf, s)"
| "copy_each log_dir (binlog # rest) buf s =
     (let binlog_file_path = os_path_join RESTORE_TEMP_DIR binlog;
          new_binlog_path = os_path_join log_dir binlog
      in case shutil_copy binlog_file_path new_binlog_path s of
           (Inl e, s') \<Rightarrow> (Inl e, buf, s')
         | (Inr _, s') \<Rightarrow>
             copy_each log_dir rest (buf @ new_binlog_path @ [CHR 0x0A])
               (shutil_chown new_binlog_path s'))"

text \<open>
  Closing the file writes the buffer from the start of the file, over whatever the file
  holds by then (nothing, unless something else wrote to the same file meanwhile).
\<close>

definition flush_close :: "string \<Rightarrow> string \<Rightarrow> sys \<Rightarrow> sys" where
  "flush_close p buf s =
     put_file p (buf @ drop (length buf) (case file_at s p of None \<Rightarrow> [] | Some old \<Rightarrow> old)) s"

text \<open>
  \<^verbatim>\<open>copy_binlog_to_new_path\<close>: opening with \<^verbatim>\<open>'w+'\<close> creates or empties the index file;
  the \<^verbatim>\<open>with\<close> block closes it on every way out, also when a copy raises.
\<close>

definition copy_binlog_to_new_path ::
  "node_context \<Rightarrow> string list \<Rightarrow> sys \<Rightarrow> (error + unit) \<times> sys" where
  "copy_binlog_to_new_path ctx mysql_bin_list s =
     (let log_dir = ctx_log_dir ctx;
          index_file = os_path_join log_dir ''mysql_bin.index'';
          s0 = emit (Write index_file) (put_file index_file [] s)
      in case copy_each log_dir mysql_bin_list [] s0 of
           (Inl e, buf, s1) \<Rightarrow> (Inl e, flush_close index_file buf s1)
         | (Inr _, buf, s1) \<Rightarrow> (Inr (), shutil_chown index_file (flush_close index_file buf s1)))"

text \<open>\<^verbatim>\<open>decompress_backup_file\<close>: the \<^verbatim>\<open>with\<close> block waits for the shell; nothing reads its exit status.\<close>

definition decompress_backup_file :: "world \<Rightarrow> string \<Rightarrow> sys \<Rightarrow> (error + unit) \<times> sys" where
  "decompress_backup_file w backup_file_name s =
     (let (status, s') =
        run_process w (ShellDecompress (os_path_join RESTORE_TEMP_DIR backup_file_name)) s
      in (Inr (), s'))"

text \<open>
  \<^verbatim>\<open>initialize_local_mycnf\<close>: the override layer is written when the reset indicator is
  set or the layer is missing; the configuration file is opened (emptied) first and
  rendered from the override layer read back. Rendering and locking are external.
\<close>

definition initialize_local_mycnf :: "node_context \<Rightarrow> world \<Rightarrow> sys \<Rightarrow> (error + unit) \<times> sys" where
  "initialize_local_mycnf ctx w s =
     (let force = ctx_reset_config ctx;
          s = mkdir_if_missing (ctx_mysql_conf ctx) s;
          s = emit (Write (ctx_mycnf_path ctx)) (put_file (ctx_mycnf_path ctx) [] s);
          s = (if force \<or> \<not> path_exists s (ctx_mycnf_override_path ctx)
               then emit (Write (ctx_mycnf_override_path ctx))
                      (put_file (ctx_mycnf_override_path ctx) (override_text w) s)
               else s);
          layer = (case file_at s (ctx_mycnf_override_path ctx) of None \<Rightarrow> [] | Some t \<Rightarrow> t)
      in (Inr (), put_file (ctx_mycnf_path ctx) (render_mycnf w layer) s))"

text \<open>\<^verbatim>\<open>apply_backup_file\<close>: the command line by edition, run as \<^verbatim>\<open>decompress_backup_file\<close> runs its own.\<close>

definition apply_backup_file :: "node_context \<Rightarrow> world \<Rightarrow> sys \<Rightarrow> (error + unit) \<times> sys" where
  "apply_backup_file ctx w s =
     (let apply_backup_cmd =
            (if ctx_is_galaxy80 ctx then ShellPrepare
             else if ctx_is_xcluster57 ctx then ShellApplyLog
             else ShellEmpty);
          (status, s') = run_process w apply_backup_cmd s
      in (Inr (), s'))"

definition chown_data_dir :: "world \<Rightarrow> sys \<Rightarrow> (error + unit) \<times> sys" where
  "chown_data_dir w s = check_run_process w ChownDataDir s"

text \<open>
  \<^verbatim>\<open>init_mysqld_metadata\<close>. The start index is Python's \<^verbatim>\<open>None\<close> (\<open>JNull\<close>) or a value; for a
  voter it is replaced by the commit index, which must not be \<^verbatim>\<open>None\<close>.
\<close>

definition init_mysqld_metadata ::
  "json \<Rightarrow> json \<Rightarrow> world \<Rightarrow> string \<Rightarrow> node_role \<Rightarrow> sys \<Rightarrow> (error + unit) \<times> sys" where
  "init_mysqld_metadata cluster_start_index commit_index w end_term pod_role s =
     (if pod_role = Voter then
        (if commit_index = JNull then (Inl (Exception ''can NOT get logger commit index''), s)
         else check_run_process w (ForceInitMeta end_term commit_index) s)
      else check_run_process w (ForceInitMeta end_term cluster_start_index) s)"

definition sync_cluster_metadata :: "world \<Rightarrow> sys \<Rightarrow> (error + unit) \<times> sys" where
  "sync_cluster_metadata w s = check_run_process w SyncMeta s"

text \<open>
  \<^verbatim>\<open>show_last_and_first_binlog\<close>: the largest and the smallest number after the last dot
  of the index file's lines; the two paths it returns are \<^verbatim>\<open>mysql_bin.%06d\<close> of these
  numbers in the log directory.
\<close>

fun scan_index :: "string list \<Rightarrow> int \<Rightarrow> int \<Rightarrow> error + int \<times> int" where
  "scan_index [] last_file_index first_file_index = Inr (last_file_index, first_file_index)"
| "scan_index (text_line # rest) last_file_index first_file_index =
     (case py_index (split_sep CHR ''.'' text_line) (- 1) of
        Inl e \<Rightarrow> Inl e
      | Inr suffix \<Rightarrow>
          (case py_int suffix of
             None \<Rightarrow> Inl ValueError
           | Some n \<Rightarrow> scan_index rest (max n last_file_index) (min n first_file_index)))"

text \<open>Opening a file for reading and taking \<^verbatim>\<open>f.readlines()\<close>.\<close>

definition file_readlines :: "sys \<Rightarrow> string \<Rightarrow> error + string list" where
  "file_readlines s p =
     (case read_text s p of Inl e \<Rightarrow> Inl e | Inr text \<Rightarrow> Inr (py_readlines text))"

definition show_last_and_first_binlog :: "node_context \<Rightarrow> sys \<Rightarrow> error + int \<times> int" where
  "show_last_and_first_binlog ctx s =
     (case file_readlines s (os_path_join (ctx_log_dir ctx) ''mysql_bin.index'') of
        Inl e \<Rightarrow> Inl e
      | Inr text_lines \<Rightarrow> scan_index text_lines (- 1) 1000000000)"

text \<open>The text of the marker file in the data directory, if the file is there.\<close>

definition local_marker :: "node_context \<Rightarrow> sys \<Rightarrow> string option" where
  "local_marker ctx s =
     map_option universal_newlines (file_at s (os_path_join (ctx_data_dir ctx) ''xtrabackup_binlog_info''))"

section \<open>The catch-up monitor\<close>

text \<open>
  The loop of \<^verbatim>\<open>wait_binlog_apply_ready\<close>. \<open>i\<close> counts the passes: the test of pass \<open>i\<close>
  reads the clock for the \<open>Suc i\<close>-th time (the first reading set the deadline), and the
  pass asks the status view for the \<open>i\<close>-th time. An exception of the check is logged and
  the loop goes on, as it does after \<^verbatim>\<open>False\<close>. A loop that never ends has no result.
\<close>

partial_function (option) wait_loop ::
  "world \<Rightarrow> real \<Rightarrow> string \<Rightarrow> nat \<Rightarrow> sys \<Rightarrow> ((error + unit) \<times> sys) option" where
  "wait_loop w deadline end_log_index i s =
     (if clock w (Suc i) < deadline then
        (if check_binlog_apply_index_status (poll w i) end_log_index = Inr True
         then Some (Inr (), emit Query (emit (Sleep 10) s))
         else wait_loop w deadline end_log_index (Suc i) (emit Query (emit (Sleep 10) s)))
      else Some (Inl (TimeoutError ''binlog apply timeout!''), s))"

definition wait_binlog_apply_ready :: "world \<Rightarrow> string \<Rightarrow> sys \<Rightarrow> ((error + unit) \<times> sys) option" where
  "wait_binlog_apply_ready w end_log_index s =
     (let timeout = 48 * 60 * 60;
          deadline = clock w 0 + timeout
      in wait_loop w deadline end_log_index 0 s)"

section \<open>The driver\<close>

definition lookup :: "(string \<rightharpoonup> json) \<Rightarrow> string \<Rightarrow> error + json" where
  "lookup params key = (case params key of None \<Rightarrow> Inl KeyError | Some v \<Rightarrow> Inr v)"

text \<open>
  \<^verbatim>\<open>FileStreamClient(context, BackupStorage[str.upper(storage_name)], sink)\<close>:
  \<^verbatim>\<open>str.upper\<close> wants a string, and the enumeration must have the name.
\<close>

definition file_stream_client :: "world \<Rightarrow> json \<Rightarrow> error + unit" where
  "file_stream_client w storage_name =
     (case storage_name of
        JString name \<Rightarrow> if backup_storage w name then Inr () else Inl KeyError
      | _ \<Rightarrow> Inl TypeError)"

text \<open>\<^verbatim>\<open>backup_file_path.split("/")[-1]\<close>: only a string has \<^verbatim>\<open>split\<close>.\<close>

definition final_segment :: "json \<Rightarrow> error + string \<times> string" where
  "final_segment backup_file_path =
     (case backup_file_path of
        JString path \<Rightarrow>
          (case py_index (split_sep CHR ''/'' path) (- 1) of
             Inl e \<Rightarrow> Inl e
           | Inr name \<Rightarrow> Inr (path, name))
      | _ \<Rightarrow> Inl AttributeError)"

definition marker_value :: "string option \<Rightarrow> json" where
  "marker_value v = (case v of None \<Rightarrow> JNull | Some t \<Rightarrow> JString t)"

text \<open>
  The tool run inside \<^verbatim>\<open>xdb_show_binlog_index\<close>, with the parse of what it printed.
\<close>

definition show_binlog_index :: "world \<Rightarrow> int \<Rightarrow> sys \<Rightarrow> (error + string \<times> string) \<times> sys" where
  "show_binlog_index w last_binlog s =
     (let index_info = stdout w (ShowIndexInfo last_binlog) (files s);
          (status, s') = run_process w (ShowIndexInfo last_binlog) s
      in (xdb_show_binlog_index index_info, s'))"

text \<open>
  \<^verbatim>\<open>start\<close> from the construction of the transfer client to \<^verbatim>\<open>init_mysqld_metadata\<close>
  (the statements between the role check and the start of the engine), returning
  \<^verbatim>\<open>end_index\<close>.
\<close>

definition restore_steps ::
  "node_context \<Rightarrow> world \<Rightarrow> json \<Rightarrow> json \<Rightarrow> json \<Rightarrow> json \<Rightarrow> sys \<Rightarrow> (error + string) \<times> sys" where
  "restore_steps ctx w commit_index backup_file_path binlog_dir_path storage_name =
     bind_io (\<lambda>s. (file_stream_client w storage_name, s)) (\<lambda>_.
     bind_io (\<lambda>s. (Inr (), mkdir_needed ctx s)) (\<lambda>_.
     bind_io (\<lambda>s. (final_segment backup_file_path, s)) (\<lambda>(path, backup_file_name).
     bind_io (download_backup_file w path backup_file_name) (\<lambda>_.
     bind_io (decompress_backup_file w backup_file_name) (\<lambda>_.
     bind_io (initialize_local_mycnf ctx w) (\<lambda>_.
     bind_io (apply_backup_file ctx w) (\<lambda>_.
     bind_io (download_binlogbackup_file w binlog_dir_path) (\<lambda>mysql_bin_list.
     bind_io (copy_binlog_to_new_path ctx mysql_bin_list) (\<lambda>_.
     bind_io (\<lambda>s. (get_xtrabackup_binlog_info_from_instance_local (local_marker ctx s), s))
       (\<lambda>cluster_start_index.
     bind_io (chown_data_dir w) (\<lambda>_.
     bind_io (\<lambda>s. (show_last_and_first_binlog ctx s, s)) (\<lambda>(last_binlog, first_binlog).
     bind_io (show_binlog_index w last_binlog) (\<lambda>(end_index, end_term).
     bind_io (init_mysqld_metadata (marker_value cluster_start_index) commit_index w end_term
                (ctx_node_role ctx)) (\<lambda>_ s.
     (Inr end_index, s)))))))))))))))"

text \<open>After catch-up: the engine is killed and waited for, then the metadata is synced.\<close>

definition finish_steps :: "world \<Rightarrow> sys \<Rightarrow> (error + unit) \<times> sys" where
  "finish_steps w s =
     bind_io (sync_cluster_metadata w) (\<lambda>_ s. (Inr (), emit MarkInitialized s))
       (emit WaitExit (emit Kill s))"

text \<open>
  \<^verbatim>\<open>start\<close>, from the parsed descriptor \<open>params\<close>: the five fields are looked up first, then
  the role is checked, then the phases run. \<open>None\<close>: the run never ends.
\<close>

definition start ::
  "node_context \<Rightarrow> world \<Rightarrow> (string \<rightharpoonup> json) \<Rightarrow> sys \<Rightarrow> ((error + unit) \<times> sys) option" where
  "start ctx w params s =
     (case lookup params ''backupCommitIndex'' of Inl e \<Rightarrow> Some (Inl e, s) | Inr commit_index \<Rightarrow>
      case lookup params ''backupFilePath'' of Inl e \<Rightarrow> Some (Inl e, s) | Inr backup_file_path \<Rightarrow>
      case lookup params ''binlogDirPath'' of Inl e \<Rightarrow> Some (Inl e, s) | Inr binlog_dir_path \<Rightarrow>
      case lookup params ''storageName'' of Inl e \<Rightarrow> Some (Inl e, s) | Inr storage_name \<Rightarrow>
      case lookup params ''sink'' of Inl e \<Rightarrow> Some (Inl e, s) | Inr sink \<Rightarrow>
      if ctx_node_role ctx \<noteq> Candidate \<and> ctx_node_role ctx \<noteq> Learner then Some (Inr (), s)
      else
        (case restore_steps ctx w commit_index backup_file_path binlog_dir_path storage_name s of
           (Inl e, s1) \<Rightarrow> Some (Inl e, s1)
         | (Inr end_index, s1) \<Rightarrow>
             (case wait_binlog_apply_ready w end_index (emit (Spawn Mysqld) s1) of
                None \<Rightarrow> None
              | Some (Inl e, s2) \<Rightarrow> Some (Inl e, s2)
              | Some (Inr _, s2) \<Rightarrow> Some (finish_steps w s2))))"

section \<open>A concrete node\<close>

text \<open>
  One pass of the monitor's loop leaves a sleep and a query behind.
\<close>

definition one_pass :: "sys \<Rightarrow> sys" where
  "one_pass s = emit Query (emit (Sleep 10) s)"

text \<open>
  A node, a descriptor and an environment to run the driver on: a full backup and two
  log segments in the object store, programs that leave the files alone and exit with
  the status \<open>exit_status\<close> gives them, and an inspection tool that prints
  \<^verbatim>\<open>[[10:2, 37:2]]\<close>.
\<close>

definition example_context :: "node_role \<Rightarrow> node_context" where
  "example_context role =
     \<lparr>ctx_node_role = role,
      ctx_data_dir = ''/data/mysql/data'',
      ctx_log_dir = ''/data/mysql/log'',
      ctx_tmp_dir = ''/data/mysql/tmp'',
      ctx_run_dir = ''/data/mysql/run'',
      ctx_mysql_conf = ''/data/mysql/conf'',
      ctx_mycnf_path = ''/data/mysql/conf/my.cnf'',
      ctx_mycnf_override_path = ''/data/mysql/conf/my.cnf.override'',
      ctx_reset_config = False,
      ctx_is_galaxy80 = True,
      ctx_is_xcluster57 = False\<rparr>"

definition example_params :: "json \<Rightarrow> (string \<rightharpoonup> json)" where
  "example_params commit_index =
     [''backupCommitIndex'' \<mapsto> commit_index,
      ''backupFilePath'' \<mapsto> JString ''backups/full.xbstream'',
      ''binlogDirPath'' \<mapsto> JString ''binlogs'',
      ''storageName'' \<mapsto> JString ''oss'',
      ''sink'' \<mapsto> JString ''default'']"

definition example_world ::
  "(command \<Rightarrow> int) \<Rightarrow> (nat \<Rightarrow> real) \<Rightarrow> (nat \<Rightarrow> int \<times> string) \<Rightarrow> world" where
  "example_world exit_status readings answers =
     \<lparr>backup_storage = (\<lambda>name. True),
      remote =
        [''backups/full.xbstream'' \<mapsto> ''stream'',
         ''binlogs/binlog_list'' \<mapsto> ''mysql_bin.000001'' @ [CHR 0x0A] @ ''mysql_bin.000002'' @ [CHR 0x0A],
         ''binlogs/mysql_bin.000001'' \<mapsto> ''segment one'',
         ''binlogs/mysql_bin.000002'' \<mapsto> ''segment two''],
      run = (\<lambda>cmd fs. (fs, exit_status cmd)),
      stdout = (\<lambda>cmd fs. ''[[10:2, 37:2]]''),
      override_text = ''[mysqld]'',
      render_mycnf = (\<lambda>layer. layer),
      clock = readings,
      poll = answers\<rparr>"

definition empty_sys :: sys where
  "empty_sys = \<lparr>files = Map.empty, dirs = {}, trace = []\<rparr>"

text \<open>
  The events of the phases before the engine is started, and what it means that a state
  \<open>s'\<close> comes from \<open>s\<close> by such events only.
\<close>

fun preparatory :: "event \<Rightarrow> bool" where
  "preparatory (Mkdir p) = True"
| "preparatory (Chown p) = True"
| "preparatory (Download r l) = True"
| "preparatory (Exec c) = True"
| "preparatory (Copy a b) = True"
| "preparatory (Write p) = True"
| "preparatory (Spawn c) = False"
| "preparatory Kill = False"
| "preparatory WaitExit = False"
| "preparatory (Sleep n) = False"
| "preparatory Query = False"
| "preparatory MarkInitialized = False"

definition prepares :: "sys \<Rightarrow> sys \<Rightarrow> bool" where
  "prepares s s' \<longleftrightarrow> (\<exists>es. trace s' = trace s @ es \<and> list_all preparatory es)"

section \<open>Whitespace tokens\<close>

text \<open>
  How \<open>split_ws\<close> reads a text that is given as runs of whitespace and runs of other
  characters, and why stripping first changes nothing.
\<close>


lemma split_ws_nonws: "\<forall>c\<in>set t. \<not> py_isspace c \<Longrightarrow> split_ws cur (t @ rest) = split_ws (cur @ t) rest"
  by (induction t arbitrary: cur) auto

lemma split_ws_ws_nil: "\<forall>c\<in>set w. py_isspace c \<Longrightarrow> split_ws [] (w @ rest) = split_ws [] rest"
  by (induction w) auto

lemma split_ws_ws: "\<forall>c\<in>set w. py_isspace c \<Longrightarrow> w \<noteq> [] \<Longrightarrow> cur \<noteq> [] \<Longrightarrow>
   split_ws cur (w @ rest) = cur # split_ws [] rest"
  by (cases w) (auto simp: split_ws_ws_nil)

lemma split_ws_only_ws: "\<forall>c\<in>set w. py_isspace c \<Longrightarrow> split_ws cur w = (if cur = [] then [] else [cur])"
  by (induction w arbitrary: cur) auto

lemma split_ws_trailing: "\<forall>c\<in>set w. py_isspace c \<Longrightarrow> split_ws cur (a @ w) = split_ws cur a"
  by (induction a arbitrary: cur) (auto simp: split_ws_only_ws)

lemma split_ws_dropWhile: "split_ws [] (dropWhile py_isspace s) = split_ws [] s"
proof -
  have "split_ws [] (takeWhile py_isspace s @ dropWhile py_isspace s) = split_ws [] (dropWhile py_isspace s)"
    by (rule split_ws_ws_nil) (auto dest: set_takeWhileD)
  then show ?thesis by simp
qed

lemma strip_right_decomp: "s = rev (dropWhile p (rev s)) @ rev (takeWhile p (rev s))"
  by (metis rev_append rev_rev_ident takeWhile_dropWhile_id)

lemma split_ws_strip_right: "split_ws cur (rev (dropWhile py_isspace (rev s))) = split_ws cur s"
proof -
  have "split_ws cur (rev (dropWhile py_isspace (rev s)) @ rev (takeWhile py_isspace (rev s)))
      = split_ws cur (rev (dropWhile py_isspace (rev s)))"
    by (rule split_ws_trailing) (auto dest: set_takeWhileD)
  then show ?thesis using strip_right_decomp [of s py_isspace] by simp
qed

lemma py_split_strip: "py_split (py_strip s) = py_split s"
  by (simp add: py_split_def py_strip_def py_strip_by_def split_ws_strip_right split_ws_dropWhile)

lemma split_ws_acc_nonempty: "cur \<noteq> [] \<Longrightarrow> split_ws cur s \<noteq> []"
  by (induction s arbitrary: cur) auto

lemma split_ws_nil_iff: "split_ws [] s = [] \<longleftrightarrow> (\<forall>c\<in>set s. py_isspace c)"
  by (induction s) (auto simp: split_ws_acc_nonempty)

lemma strip_by_nil_iff: "py_strip_by p s = [] \<longleftrightarrow> (\<forall>c\<in>set s. p c)"
proof
  assume h: "py_strip_by p s = []"
  show "\<forall>c\<in>set s. p c"
  proof (rule ccontr)
    assume "\<not> (\<forall>c\<in>set s. p c)"
    then have ne: "dropWhile p s \<noteq> []" by (simp add: dropWhile_eq_Nil_conv)
    then have "\<not> p (hd (dropWhile p s))" by (rule hd_dropWhile)
    moreover have "hd (dropWhile p s) \<in> set (dropWhile p s)" using ne by simp
    moreover from h have "\<forall>c\<in>set (dropWhile p s). p c"
      by (simp add: py_strip_by_def dropWhile_eq_Nil_conv)
    ultimately show False by blast
  qed
next
  assume "\<forall>c\<in>set s. p c"
  then show "py_strip_by p s = []"
    by (auto simp: py_strip_by_def dest: set_dropWhileD)
qed

lemma py_strip_nil_iff: "py_strip s = [] \<longleftrightarrow> (\<forall>c\<in>set s. py_isspace c)"
  by (simp add: py_strip_def strip_by_nil_iff)

lemma marker_tokens:
  "get_xtrabackup_binlog_info_from_instance_local (Some s) =
     (case py_split s of [] \<Rightarrow> Inr None | [t] \<Rightarrow> Inr (Some t) | t1 # t2 # _ \<Rightarrow> Inr (Some t2))"
proof (cases "\<forall>c\<in>set s. py_isspace c")
  case True
  then show ?thesis
    using py_strip_nil_iff [of s] split_ws_nil_iff [of s]
    by (simp add: get_xtrabackup_binlog_info_from_instance_local_def py_split_def)
next
  case False
  then have "py_strip s \<noteq> []" "py_split s \<noteq> []"
    using py_strip_nil_iff [of s] split_ws_nil_iff [of s] by (auto simp: py_split_def)
  then show ?thesis
    by (auto simp: get_xtrabackup_binlog_info_from_instance_local_def py_split_strip Let_def
             split: list.splits)
qed

section \<open>Reading the local recovery marker\<close>

text \<open>
  C9: without the marker file the function returns \<^verbatim>\<open>None\<close>. With a marker that holds
  tokens separated by whitespace it returns the second token when there are at least
  two, and the only token when there is one. The text is given by its runs: \<open>w0\<close>,
  \<open>w1\<close>, \<open>w2\<close> are whitespace, \<open>t1\<close> and \<open>t2\<close> are the first two tokens, and \<open>rest\<close>
  is whatever follows the second token.
\<close>

theorem marker_second_token_else_first:
  assumes w0: "\<forall>c\<in>set w0. py_isspace c"
    and w1: "\<forall>c\<in>set w1. py_isspace c" "w1 \<noteq> []"
    and w2: "\<forall>c\<in>set w2. py_isspace c"
    and t1: "\<forall>c\<in>set t1. \<not> py_isspace c" "t1 \<noteq> []"
    and t2: "\<forall>c\<in>set t2. \<not> py_isspace c" "t2 \<noteq> []"
    and rest: "rest = [] \<or> py_isspace (hd rest)"
  shows "get_xtrabackup_binlog_info_from_instance_local None = Inr None
       \<and> get_xtrabackup_binlog_info_from_instance_local (Some (w0 @ t1 @ w2)) = Inr (Some t1)
       \<and> get_xtrabackup_binlog_info_from_instance_local (Some (w0 @ t1 @ w1 @ t2 @ rest))
           = Inr (Some t2)"
proof -
  have absent: "get_xtrabackup_binlog_info_from_instance_local None = Inr None"
    by (simp add: get_xtrabackup_binlog_info_from_instance_local_def)
  have "py_split (w0 @ t1 @ w2) = split_ws t1 w2"
    using w0 t1 by (simp add: py_split_def split_ws_ws_nil split_ws_nonws)
  then have one: "py_split (w0 @ t1 @ w2) = [t1]"
    using w2 t1 by (simp add: split_ws_only_ws)
  have "py_split (w0 @ t1 @ w1 @ t2 @ rest) = split_ws t1 (w1 @ t2 @ rest)"
    using w0 t1 by (simp add: py_split_def split_ws_ws_nil split_ws_nonws)
  also have "\<dots> = t1 # split_ws [] (t2 @ rest)"
    using w1 t1 by (simp add: split_ws_ws)
  also have "\<dots> = t1 # split_ws t2 rest"
    using t2 by (simp add: split_ws_nonws)
  finally have two: "py_split (w0 @ t1 @ w1 @ t2 @ rest) = t1 # split_ws t2 rest" .
  have "\<exists>more. split_ws t2 rest = t2 # more"
    using rest t2 by (cases rest) auto
  then obtain more where "py_split (w0 @ t1 @ w1 @ t2 @ rest) = t1 # t2 # more"
    using two by auto
  then show ?thesis
    using absent one by (simp add: marker_tokens)
qed

theorem marker_second_token_else_first_witness:
  "get_xtrabackup_binlog_info_from_instance_local None = Inr None
   \<and> get_xtrabackup_binlog_info_from_instance_local (Some '' 4711 '') = Inr (Some ''4711'')
   \<and> get_xtrabackup_binlog_info_from_instance_local
        (Some ('' mysql_bin.000003'' @ [CHR 0x09] @ ''4711'' @ [CHR 0x0A] @ ''uuid:1-5''))
       = Inr (Some ''4711'')"
  using marker_second_token_else_first
    [of "'' ''" "[CHR 0x09]" "'' ''" "''4711''" "''4711''" "[CHR 0x0A] @ ''uuid:1-5''"]
    marker_second_token_else_first
    [of "'' ''" "[CHR 0x09]" "[]" "''mysql_bin.000003''" "''4711''" "[CHR 0x0A] @ ''uuid:1-5''"]
  by (simp add: py_isspace_def)

text \<open>
  C10: a marker file that exists and holds nothing, or whitespace only, gives \<^verbatim>\<open>None\<close>,
  the result for an absent marker: no exception and no empty string.
\<close>

theorem marker_blank_is_none:
  "\<forall>c\<in>set text. py_isspace c \<Longrightarrow>
     get_xtrabackup_binlog_info_from_instance_local (Some text) = Inr None
     \<and> get_xtrabackup_binlog_info_from_instance_local (Some text)
         = get_xtrabackup_binlog_info_from_instance_local None"
  using py_strip_nil_iff [of "text"]
  by (simp add: get_xtrabackup_binlog_info_from_instance_local_def)

theorem marker_blank_is_none_witness:
  "get_xtrabackup_binlog_info_from_instance_local (Some []) = Inr None
   \<and> get_xtrabackup_binlog_info_from_instance_local (Some [CHR 0x20, CHR 0x0A]) = Inr None"
  using marker_blank_is_none [of "[]"] marker_blank_is_none [of "[CHR 0x20, CHR 0x0A]"]
  by (simp add: py_isspace_def)

section \<open>Parsing the index-inspection output\<close>

text \<open>
  Stripping whitespace, then brackets, then deleting spaces, leaves the two pairs joined
  by a comma; the lemmas below follow the source's steps in that order.
\<close>


lemma lstrip_pre: "\<forall>c\<in>set l. p c \<Longrightarrow> m \<noteq> [] \<Longrightarrow> \<not> p (hd m) \<Longrightarrow> dropWhile p (l @ m) = m"
  by (cases m) (simp_all add: dropWhile_append2)

lemma rstrip_post:
  "\<forall>c\<in>set r. p c \<Longrightarrow> m \<noteq> [] \<Longrightarrow> \<not> p (last m) \<Longrightarrow> rev (dropWhile p (rev (m @ r))) = m"
  using lstrip_pre [of "rev r" p "rev m"] by (simp add: hd_rev)

lemma split_sep_none: "sep \<notin> set a \<Longrightarrow> split_sep sep a = [a]"
  by (induction a) auto

lemma split_sep_append: "sep \<notin> set a \<Longrightarrow> split_sep sep (a @ sep # b) = a # split_sep sep b"
  by (induction a) auto

lemma digit_not_space: "py_isdigit c \<Longrightarrow> \<not> py_isspace c"
  by (auto simp: py_isdigit_def py_isspace_def)

lemma digit_not_bracket: "py_isdigit c \<Longrightarrow> \<not> is_bracket c"
  by (auto simp: py_isdigit_def is_bracket_def)

lemma bracket_not_space: "is_bracket c \<Longrightarrow> \<not> py_isspace c"
  by (auto simp: is_bracket_def py_isspace_def)

lemma space_is_space: "py_isspace (CHR '' '')" "\<not> is_bracket (CHR '' '')"
  by (simp_all add: py_isspace_def is_bracket_def)

lemma filter_spaces: "\<forall>c\<in>set s. c = CHR '' '' \<Longrightarrow> filter (\<lambda>c. c \<noteq> CHR '' '') s = []"
  by (induction s) auto

lemma filter_digits: "\<forall>c\<in>set s. py_isdigit c \<Longrightarrow> filter (\<lambda>c. c \<noteq> CHR '' '') s = s"
  by (induction s) (auto simp: py_isdigit_def)


lemma spaces_ws: "\<forall>x\<in>set s. x = CHR '' '' \<Longrightarrow> \<forall>x\<in>set s. py_isspace x"
  by (induction s) (simp_all add: space_is_space(1))

lemma hd_spaces_mid:
  assumes "\<forall>x\<in>set s. x = CHR '' ''" "mid \<noteq> []" "\<not> is_bracket (hd mid)"
  shows "\<not> is_bracket (hd (s @ mid @ t))"
proof (cases s)
  case Nil
  then show ?thesis using assms by simp
next
  case (Cons x xs)
  then have "x = CHR '' ''" using assms(1) by simp
  then show ?thesis using Cons space_is_space(2) by simp
qed

lemma last_mid_spaces:
  assumes "\<forall>x\<in>set s. x = CHR '' ''" "mid \<noteq> []" "\<not> is_bracket (last mid)"
  shows "\<not> is_bracket (last (t @ mid @ s))"
proof (cases s rule: rev_cases)
  case Nil
  then show ?thesis using assms by simp
next
  case (snoc xs x)
  then have "x = CHR '' ''" using assms(1) by simp
  then show ?thesis using snoc space_is_space(2) by simp
qed

lemma left_ws:
  assumes wpre: "\<forall>x\<in>set wpre. py_isspace x"
    and lb: "\<forall>x\<in>set lb. is_bracket x"
    and s1: "\<forall>x\<in>set s1. x = CHR '' ''"
    and mid: "mid \<noteq> []" "\<not> py_isspace (hd mid)"
  shows "dropWhile py_isspace (wpre @ lb @ s1 @ mid @ post)
       = lb @ (if lb = [] then [] else s1) @ mid @ post"
proof (cases "lb = []")
  case True
  have "\<forall>x\<in>set (wpre @ s1). py_isspace x"
    using wpre spaces_ws [OF s1] by auto
  moreover have "mid @ post \<noteq> []" "\<not> py_isspace (hd (mid @ post))"
    using mid by simp_all
  ultimately have "dropWhile py_isspace ((wpre @ s1) @ (mid @ post)) = mid @ post"
    by (rule lstrip_pre)
  then show ?thesis using True by simp
next
  case False
  then have "hd (lb @ s1 @ mid @ post) = hd lb" "hd lb \<in> set lb" by simp_all
  then have "\<not> py_isspace (hd (lb @ s1 @ mid @ post))"
    using lb bracket_not_space by metis
  moreover have "lb @ s1 @ mid @ post \<noteq> []" using False by simp
  ultimately have "dropWhile py_isspace (wpre @ (lb @ s1 @ mid @ post)) = lb @ s1 @ mid @ post"
    using wpre by (intro lstrip_pre)
  then show ?thesis using False by simp
qed


lemma right_ws:
  assumes wpost: "\<forall>x\<in>set wpost. py_isspace x"
    and rb: "\<forall>x\<in>set rb. is_bracket x"
    and s8: "\<forall>x\<in>set s8. x = CHR '' ''"
    and pre: "pre \<noteq> []" "\<not> py_isspace (last pre)"
  shows "rev (dropWhile py_isspace (rev (pre @ s8 @ rb @ wpost)))
       = pre @ (if rb = [] then [] else s8) @ rb"
proof (cases "rb = []")
  case True
  have "\<forall>x\<in>set (s8 @ wpost). py_isspace x"
    using wpost spaces_ws [OF s8] by auto
  then have "rev (dropWhile py_isspace (rev (pre @ (s8 @ wpost)))) = pre"
    using pre by (rule rstrip_post)
  then show ?thesis using True by simp
next
  case False
  then have "last (pre @ s8 @ rb) = last rb" "last rb \<in> set rb" by simp_all
  then have "\<not> py_isspace (last (pre @ s8 @ rb))"
    using rb bracket_not_space by metis
  moreover have "pre @ s8 @ rb \<noteq> []" using False by simp
  ultimately have "rev (dropWhile py_isspace (rev ((pre @ s8 @ rb) @ wpost))) = pre @ s8 @ rb"
    using wpost by (intro rstrip_post)
  then show ?thesis using False by simp
qed

lemma strip_brackets:
  assumes wpre: "\<forall>x\<in>set wpre. py_isspace x" and wpost: "\<forall>x\<in>set wpost. py_isspace x"
    and lb: "\<forall>x\<in>set lb. is_bracket x" and rb: "\<forall>x\<in>set rb. is_bracket x"
    and s1: "\<forall>x\<in>set s1. x = CHR '' ''" and s8: "\<forall>x\<in>set s8. x = CHR '' ''"
    and mid: "mid \<noteq> []" "py_isdigit (hd mid)" "py_isdigit (last mid)"
  shows "filter (\<lambda>c. c \<noteq> CHR '' '')
           (py_strip_by is_bracket (py_strip (wpre @ lb @ s1 @ mid @ s8 @ rb @ wpost)))
         = filter (\<lambda>c. c \<noteq> CHR '' '') mid"
proof -
  define s1' where "s1' = (if lb = [] then [] else s1)"
  define s8' where "s8' = (if rb = [] then [] else s8)"
  have s1'sp: "\<forall>x\<in>set s1'. x = CHR '' ''"
    using s1 by (cases "lb = []") (simp_all add: s1'_def)
  have s8'sp: "\<forall>x\<in>set s8'. x = CHR '' ''"
    using s8 by (cases "rb = []") (simp_all add: s8'_def)
  have midws: "\<not> py_isspace (hd mid)" "\<not> py_isspace (last mid)"
    using mid(2,3) by (simp_all add: digit_not_space)
  have midbr: "\<not> is_bracket (hd mid)" "\<not> is_bracket (last mid)"
    using mid(2,3) by (simp_all add: digit_not_bracket)
  have l: "dropWhile py_isspace (wpre @ lb @ s1 @ mid @ (s8 @ rb @ wpost))
         = lb @ s1' @ mid @ (s8 @ rb @ wpost)"
    unfolding s1'_def using wpre lb s1 mid(1) midws(1) by (rule left_ws)
  have pre: "lb @ s1' @ mid \<noteq> []" "\<not> py_isspace (last (lb @ s1' @ mid))"
    using mid(1) midws(2) by simp_all
  have r: "rev (dropWhile py_isspace (rev ((lb @ s1' @ mid) @ s8 @ rb @ wpost)))
         = (lb @ s1' @ mid) @ s8' @ rb"
    unfolding s8'_def using wpost rb s8 pre by (rule right_ws)
  have ws: "py_strip (wpre @ lb @ s1 @ mid @ s8 @ rb @ wpost) = lb @ (s1' @ mid @ s8' @ rb)"
    using l r by (simp add: py_strip_def py_strip_by_def)
  have hd_in: "\<not> is_bracket (hd (s1' @ mid @ (s8' @ rb)))"
    using s1'sp mid(1) midbr(1) by (rule hd_spaces_mid)
  have "s1' @ mid @ s8' @ rb \<noteq> []" using mid(1) by simp
  with lb have left_br: "dropWhile is_bracket (lb @ (s1' @ mid @ s8' @ rb)) = s1' @ mid @ s8' @ rb"
    using hd_in by (intro lstrip_pre) simp_all
  have last_in: "\<not> is_bracket (last (s1' @ mid @ s8'))"
    using s8'sp mid(1) midbr(2) by (rule last_mid_spaces)
  have "s1' @ mid @ s8' \<noteq> []" using mid(1) by simp
  with rb have right_br:
    "rev (dropWhile is_bracket (rev ((s1' @ mid @ s8') @ rb))) = s1' @ mid @ s8'"
    using last_in by (intro rstrip_post)
  have "py_strip_by is_bracket (py_strip (wpre @ lb @ s1 @ mid @ s8 @ rb @ wpost)) = s1' @ mid @ s8'"
    using ws left_br right_br by (simp add: py_strip_by_def)
  then show ?thesis
    by (simp add: filter_spaces [OF s1'sp] filter_spaces [OF s8'sp])
qed


lemma digits_no_sep:
  "\<forall>x\<in>set s. py_isdigit x \<Longrightarrow> CHR '','' \<notin> set s \<and> CHR '':'' \<notin> set s"
proof -
  have "\<not> py_isdigit CHR '',''" "\<not> py_isdigit CHR '':''"
    by (simp_all add: py_isdigit_def)
  then show "\<forall>x\<in>set s. py_isdigit x \<Longrightarrow> CHR '','' \<notin> set s \<and> CHR '':'' \<notin> set s"
    by auto
qed

lemma second_pair:
  assumes a: "CHR '','' \<notin> set a" and b: "CHR '','' \<notin> set b"
    and c: "CHR '','' \<notin> set c" "CHR '':'' \<notin> set c"
    and d: "CHR '','' \<notin> set d" "CHR '':'' \<notin> set d"
    and temp: "filter (\<lambda>c. c \<noteq> CHR '' '') (py_strip_by is_bracket (py_strip index_info))
               = a @ '':'' @ b @ '','' @ c @ '':'' @ d"
  shows "xdb_show_binlog_index index_info = Inr (c, d)"
proof -
  have "CHR '','' \<notin> set (a @ '':'' @ b)" using a b by simp
  then have "split_sep CHR '','' ((a @ '':'' @ b) @ CHR '','' # (c @ '':'' @ d))
           = (a @ '':'' @ b) # split_sep CHR '','' (c @ '':'' @ d)"
    by (rule split_sep_append)
  moreover have "split_sep CHR '','' (c @ '':'' @ d) = [c @ '':'' @ d]"
    using c d by (intro split_sep_none) simp
  ultimately have pairs:
    "split_sep CHR '','' (a @ '':'' @ b @ '','' @ c @ '':'' @ d) = [a @ '':'' @ b, c @ '':'' @ d]"
    by simp
  have "split_sep CHR '':'' (c @ CHR '':'' # d) = c # split_sep CHR '':'' d"
    using c(2) by (rule split_sep_append)
  then have fields: "split_sep CHR '':'' (c @ '':'' @ d) = [c, d]"
    using d(2) by (simp add: split_sep_none)
  show ?thesis
    using pairs fields by (simp add: xdb_show_binlog_index_def temp py_index_def)
qed

text \<open>
  C7: on tool output of the form \<^verbatim>\<open>[start_index:start_term, end_index:end_term]\<close>, with
  any number of brackets on either side (\<open>lb\<close>, \<open>rb\<close>), whitespace around the whole
  (\<open>wpre\<close>, \<open>wpost\<close>) and runs of spaces \<open>s1\<close> .. \<open>s8\<close> between the parts,
  \<^verbatim>\<open>xdb_show_binlog_index\<close> returns the second pair, \<open>(end_index, end_term)\<close>, as the
  decimal strings the tool printed. The output \<^verbatim>\<open>[[10:2, 37:2]]\<close> gives \<open>37\<close> and \<open>2\<close>.
\<close>

theorem index_info_second_pair:
  assumes wpre: "\<forall>x\<in>set wpre. py_isspace x" and wpost: "\<forall>x\<in>set wpost. py_isspace x"
    and lb: "\<forall>x\<in>set lb. is_bracket x" and rb: "\<forall>x\<in>set rb. is_bracket x"
    and sp: "\<forall>s\<in>set [s1, s2, s3, s4, s5, s6, s7, s8]. \<forall>x\<in>set s. x = CHR '' ''"
    and num: "\<forall>n\<in>set [start_index, start_term, end_index, end_term].
                n \<noteq> [] \<and> (\<forall>x\<in>set n. py_isdigit x)"
  shows "xdb_show_binlog_index
           (wpre @ lb @ s1 @ start_index @ s2 @ '':'' @ s3 @ start_term @ s4 @ '','' @
            s5 @ end_index @ s6 @ '':'' @ s7 @ end_term @ s8 @ rb @ wpost)
         = Inr (end_index, end_term)"
proof -
  let ?mid = "start_index @ s2 @ '':'' @ s3 @ start_term @ s4 @ '','' @
              s5 @ end_index @ s6 @ '':'' @ s7 @ end_term"
  have s: "\<forall>x\<in>set s1. x = CHR '' ''" "\<forall>x\<in>set s2. x = CHR '' ''" "\<forall>x\<in>set s3. x = CHR '' ''"
    "\<forall>x\<in>set s4. x = CHR '' ''" "\<forall>x\<in>set s5. x = CHR '' ''" "\<forall>x\<in>set s6. x = CHR '' ''"
    "\<forall>x\<in>set s7. x = CHR '' ''" "\<forall>x\<in>set s8. x = CHR '' ''"
    using sp by simp_all
  have n: "start_index \<noteq> []" "end_term \<noteq> []"
    "\<forall>x\<in>set start_index. py_isdigit x" "\<forall>x\<in>set start_term. py_isdigit x"
    "\<forall>x\<in>set end_index. py_isdigit x" "\<forall>x\<in>set end_term. py_isdigit x"
    using num by simp_all
  have "hd ?mid = hd start_index" "hd start_index \<in> set start_index" using n(1) by simp_all
  then have hd: "py_isdigit (hd ?mid)" using n(3) by metis
  have "last ?mid = last end_term" "last end_term \<in> set end_term" using n(2) by simp_all
  then have last: "py_isdigit (last ?mid)" using n(6) by metis
  have ne: "?mid \<noteq> []" using n(1) by simp
  have "filter (\<lambda>c. c \<noteq> CHR '' '')
          (py_strip_by is_bracket (py_strip (wpre @ lb @ s1 @ ?mid @ s8 @ rb @ wpost)))
        = filter (\<lambda>c. c \<noteq> CHR '' '') ?mid"
    using wpre wpost lb rb s(1) s(8) ne hd last by (rule strip_brackets)
  also have "\<dots> = start_index @ '':'' @ start_term @ '','' @ end_index @ '':'' @ end_term"
    by (simp add: filter_spaces [OF s(2)] filter_spaces [OF s(3)] filter_spaces [OF s(4)]
          filter_spaces [OF s(5)] filter_spaces [OF s(6)] filter_spaces [OF s(7)]
          filter_digits [OF n(3)] filter_digits [OF n(4)] filter_digits [OF n(5)]
          filter_digits [OF n(6)])
  finally have temp: "filter (\<lambda>c. c \<noteq> CHR '' '')
          (py_strip_by is_bracket (py_strip (wpre @ lb @ s1 @ ?mid @ s8 @ rb @ wpost)))
        = start_index @ '':'' @ start_term @ '','' @ end_index @ '':'' @ end_term" .
  have "xdb_show_binlog_index (wpre @ lb @ s1 @ ?mid @ s8 @ rb @ wpost) = Inr (end_index, end_term)"
    using digits_no_sep [OF n(3)] digits_no_sep [OF n(4)] digits_no_sep [OF n(5)]
      digits_no_sep [OF n(6)] temp
    by (intro second_pair [where a = start_index and b = start_term]) simp_all
  then show ?thesis by simp
qed

theorem index_info_second_pair_witness:
  "xdb_show_binlog_index ''[[10:2, 37:2]]'' = Inr (''37'', ''2'')
   \<and> py_int ''37'' = Some 37 \<and> py_int ''2'' = Some 2
   \<and> xdb_show_binlog_index (''[[ 10 :2 ,  37: 2 ]]'' @ [CHR 0x0A]) = Inr (''37'', ''2'')"
  using index_info_second_pair
      [of "[]" "[]" "''[[''" "'']]''" "[]" "[]" "[]" "[]" "'' ''" "[]" "[]" "[]"
          "''10''" "''2''" "''37''" "''2''"]
    index_info_second_pair
      [of "[]" "[CHR 0x0A]" "''[[''" "'']]''" "'' ''" "'' ''" "[]" "'' ''" "''  ''" "[]" "'' ''" "'' ''"
          "''10''" "''2''" "''37''" "''2''"]
  by (simp add: py_isspace_def is_bracket_def py_isdigit_def py_int_def py_strip_def
        py_strip_by_def int_isspace_def int_unsigned_def digit_val_def)

section \<open>The readiness check against the status view's format\<close>












section \<open>The monitor's loop\<close>

text \<open>
  The loop is unfolded once per pass: \<open>n\<close> passes that find the clock before the deadline
  and the node not ready, then either a late clock (timeout) or a ready node.
\<close>

lemma wait_loop_timeout:
  "deadline \<le> clock w (Suc (i + n)) \<Longrightarrow>
   \<forall>j<n. clock w (Suc (i + j)) < deadline \<Longrightarrow>
   \<forall>j<n. check_binlog_apply_index_status (poll w (i + j)) e \<noteq> Inr True \<Longrightarrow>
   wait_loop w deadline e i s
     = Some (Inl (TimeoutError ''binlog apply timeout!''), (one_pass ^^ n) s)"
proof (induction n arbitrary: i s)
  case 0
  then show ?case by (subst wait_loop.simps) simp
next
  case (Suc n)
  have now: "clock w (Suc i) < deadline"
    "check_binlog_apply_index_status (poll w i) e \<noteq> Inr True"
    using Suc.prems(2,3) by (metis add_0_right zero_less_Suc)+
  have "wait_loop w deadline e (Suc i) (one_pass s)
      = Some (Inl (TimeoutError ''binlog apply timeout!''), (one_pass ^^ n) (one_pass s))"
  proof (rule Suc.IH)
    show "deadline \<le> clock w (Suc (Suc i + n))" using Suc.prems(1) by simp
    show "\<forall>j<n. clock w (Suc (Suc i + j)) < deadline"
      using Suc.prems(2) by (metis Suc_less_eq add_Suc_shift)
    show "\<forall>j<n. check_binlog_apply_index_status (poll w (Suc i + j)) e \<noteq> Inr True"
      using Suc.prems(3) by (metis Suc_less_eq add_Suc_shift)
  qed
  then show ?case
    using now by (subst wait_loop.simps) (simp add: one_pass_def funpow_swap1)
qed

lemma wait_loop_ready:
  "\<forall>j\<le>n. clock w (Suc (i + j)) < deadline \<Longrightarrow>
   \<forall>j<n. check_binlog_apply_index_status (poll w (i + j)) e \<noteq> Inr True \<Longrightarrow>
   check_binlog_apply_index_status (poll w (i + n)) e = Inr True \<Longrightarrow>
   wait_loop w deadline e i s = Some (Inr (), (one_pass ^^ Suc n) s)"
proof (induction n arbitrary: i s)
  case 0
  then show ?case by (subst wait_loop.simps) (simp add: one_pass_def)
next
  case (Suc n)
  have now: "clock w (Suc i) < deadline"
    "check_binlog_apply_index_status (poll w i) e \<noteq> Inr True"
    using Suc.prems(1,2) by (metis add_0_right zero_less_Suc le0)+
  have "wait_loop w deadline e (Suc i) (one_pass s)
      = Some (Inr (), (one_pass ^^ Suc n) (one_pass s))"
  proof (rule Suc.IH)
    show "\<forall>j\<le>n. clock w (Suc (Suc i + j)) < deadline"
      using Suc.prems(1) by (metis Suc_le_mono add_Suc_shift)
    show "\<forall>j<n. check_binlog_apply_index_status (poll w (Suc i + j)) e \<noteq> Inr True"
      using Suc.prems(2) by (metis Suc_less_eq add_Suc_shift)
    show "check_binlog_apply_index_status (poll w (Suc i + n)) e = Inr True"
      using Suc.prems(3) by simp
  qed
  then show ?case
    using now by (subst wait_loop.simps) (simp add: one_pass_def funpow_swap1)
qed

text \<open>
  C5: the deadline is the first clock reading plus 48 hours (in seconds). If the test of
  pass \<open>n\<close> is the first to read a clock at or past the deadline and no earlier pass found
  the node ready, \<^verbatim>\<open>wait_binlog_apply_ready\<close> raises the timeout error after \<open>n\<close> passes.
  With \<open>n = 0\<close>, the deadline already reached at loop entry, it raises with the state
  untouched: no sleep and no status query.
\<close>

theorem monitor_times_out_at_deadline:
  assumes late: "clock w 0 + 48 * 60 * 60 \<le> clock w (Suc n)"
    and early: "\<forall>i<n. clock w (Suc i) < clock w 0 + 48 * 60 * 60"
    and lagging: "\<forall>i<n. check_binlog_apply_index_status (poll w i) end_log_index \<noteq> Inr True"
  shows "wait_binlog_apply_ready w end_log_index s
           = Some (Inl (TimeoutError ''binlog apply timeout!''), (one_pass ^^ n) s)
       \<and> (n = 0 \<longrightarrow> wait_binlog_apply_ready w end_log_index s
                      = Some (Inl (TimeoutError ''binlog apply timeout!''), s))"
proof -
  have "wait_loop w (clock w 0 + 48 * 60 * 60) end_log_index 0 s
      = Some (Inl (TimeoutError ''binlog apply timeout!''), (one_pass ^^ n) s)"
    using assms by (intro wait_loop_timeout) simp_all
  then show ?thesis by (auto simp: wait_binlog_apply_ready_def)
qed


theorem monitor_times_out_at_deadline_witness:
  "wait_binlog_apply_ready
     (example_world (\<lambda>cmd. 0) (\<lambda>k. if k = 0 then 0 else 172800) (\<lambda>i. (0, ''''))) ''37'' empty_sys
     = Some (Inl (TimeoutError ''binlog apply timeout!''), empty_sys)
   \<and> wait_binlog_apply_ready
     (example_world (\<lambda>cmd. 0) (\<lambda>k. real k * 100000) (\<lambda>i. (1, ''connection refused''))) ''37'' empty_sys
     = Some (Inl (TimeoutError ''binlog apply timeout!''),
             empty_sys\<lparr>trace := [Sleep 10, Query]\<rparr>)"
  using monitor_times_out_at_deadline
      [of "example_world (\<lambda>cmd. 0) (\<lambda>k. if k = 0 then 0 else 172800) (\<lambda>i. (0, ''''))" 0 "''37''" empty_sys]
    monitor_times_out_at_deadline
      [of "example_world (\<lambda>cmd. 0) (\<lambda>k. real k * 100000) (\<lambda>i. (1, ''connection refused''))" 1 "''37''" empty_sys]
  by (simp add: example_world_def empty_sys_def one_pass_def emit_def
        check_binlog_apply_index_status_def py_index_def)

section \<open>The role check\<close>

text \<open>
  The descriptor's fields are read before the role is looked at; with all five present,
  a role other than Candidate and Learner returns at once.
\<close>


lemma start_role_skip:
  assumes fields: "{''backupCommitIndex'', ''backupFilePath'', ''binlogDirPath'', ''storageName'', ''sink''}
                     \<subseteq> dom params"
    and role: "ctx_node_role ctx \<noteq> Candidate" "ctx_node_role ctx \<noteq> Learner"
  shows "start ctx w params s = Some (Inr (), s)"
proof -
  from fields obtain a b c d e where
    "params ''backupCommitIndex'' = Some a" "params ''backupFilePath'' = Some b"
    "params ''binlogDirPath'' = Some c" "params ''storageName'' = Some d" "params ''sink'' = Some e"
    by auto
  then show ?thesis using role by (simp add: start_def lookup_def)
qed

lemma example_params_dom:
  "{''backupCommitIndex'', ''backupFilePath'', ''binlogDirPath'', ''storageName'', ''sink''}
     \<subseteq> dom (example_params ci)"
  by (simp add: example_params_def)

text \<open>
  C4: for a node whose role is neither Candidate nor Learner, \<^verbatim>\<open>start\<close> on a descriptor
  that has its five fields returns normally with the state it was given: no file and no
  directory has changed and the trace has no new event, so nothing was downloaded and no
  process was run.
\<close>

theorem other_roles_skip_restore:
  assumes "ctx_node_role ctx \<notin> {Candidate, Learner}"
    and "{''backupCommitIndex'', ''backupFilePath'', ''binlogDirPath'', ''storageName'', ''sink''}
           \<subseteq> dom params"
  shows "start ctx w params s = Some (Inr (), s)"
  using assms by (intro start_role_skip) simp_all

theorem other_roles_skip_restore_witness:
  "ctx_node_role (example_context (OtherRole ''follower'')) \<notin> {Candidate, Learner}
   \<and> start (example_context (OtherRole ''follower''))
         (example_world (\<lambda>cmd. 0) (\<lambda>k. real k) (\<lambda>i. (0, '''')))
         (example_params (JNumber 37)) empty_sys
       = Some (Inr (), empty_sys)"
  using other_roles_skip_restore
    [of "example_context (OtherRole ''follower'')" "example_params (JNumber 37)"
        "example_world (\<lambda>cmd. 0) (\<lambda>k. real k) (\<lambda>i. (0, ''''))" empty_sys]
    example_params_dom [of "JNumber 37"]
  by (simp add: example_context_def)

text \<open>
  C1 as stated fails: a run for a Voter whose descriptor has \<^verbatim>\<open>backupCommitIndex\<close> null ends
  at the role check, successfully, and never enters the force-init phase.
\<close>

theorem voter_without_commit_index_run_counterexample:
  "start (example_context Voter) (example_world (\<lambda>cmd. 0) (\<lambda>k. real k) (\<lambda>i. (0, '''')))
     (example_params JNull) empty_sys
   = Some (Inr (), empty_sys)"
  using start_role_skip
    [of "example_params JNull" "example_context Voter"
        "example_world (\<lambda>cmd. 0) (\<lambda>k. real k) (\<lambda>i. (0, ''''))" empty_sys]
    example_params_dom [of JNull]
  by (simp add: example_context_def)

text \<open>
  C1, amended: the force-init phase itself, \<^verbatim>\<open>init_mysqld_metadata\<close>, entered for a Voter
  with the commit index \<^verbatim>\<open>None\<close>, raises its configuration error with the state untouched,
  so before any process is run. The driver does not take a Voter there: its run ends at
  the role check.
\<close>

theorem voter_without_commit_index:
  "init_mysqld_metadata cluster_start_index JNull w end_term Voter s
     = (Inl (Exception ''can NOT get logger commit index''), s)
   \<and> (ctx_node_role ctx = Voter \<and>
        {''backupCommitIndex'', ''backupFilePath'', ''binlogDirPath'', ''storageName'', ''sink''}
           \<subseteq> dom params
      \<longrightarrow> start ctx w params s = Some (Inr (), s))"
proof -
  have "start ctx w params s = Some (Inr (), s)"
    if "ctx_node_role ctx = Voter"
      "{''backupCommitIndex'', ''backupFilePath'', ''binlogDirPath'', ''storageName'', ''sink''}
         \<subseteq> dom params"
    using that by (intro start_role_skip) simp_all
  then show ?thesis by (simp add: init_mysqld_metadata_def)
qed

theorem voter_without_commit_index_witness:
  "init_mysqld_metadata (JString ''4711'') JNull
       (example_world (\<lambda>cmd. 0) (\<lambda>k. real k) (\<lambda>i. (0, ''''))) ''2'' Voter empty_sys
     = (Inl (Exception ''can NOT get logger commit index''), empty_sys)
   \<and> ctx_node_role (example_context Voter) = Voter
   \<and> start (example_context Voter) (example_world (\<lambda>cmd. 0) (\<lambda>k. real k) (\<lambda>i. (0, '''')))
         (example_params JNull) empty_sys
       = Some (Inr (), empty_sys)"
  using voter_without_commit_index
    [of "JString ''4711''" "example_world (\<lambda>cmd. 0) (\<lambda>k. real k) (\<lambda>i. (0, ''''))" "''2''" empty_sys
        "example_context Voter" "example_params JNull"]
    example_params_dom [of JNull]
  by (simp add: example_context_def)

section \<open>Rebuilding the segment index file\<close>

text \<open>
  The loop only appends to the buffer and only writes to the copies' destinations, so the
  file emptied at opening is still empty when the buffer is flushed into it, unless one
  of the destinations is the index file itself.
\<close>

lemma files_emit [simp]: "files (emit e s) = files s"
  by (simp add: emit_def)

lemma file_at_emit [simp]: "file_at (emit e s) p = file_at s p"
  by (simp add: file_at_def)

lemma files_shutil_chown [simp]: "files (shutil_chown p s) = files s"
  by (simp add: shutil_chown_def)

lemma file_at_shutil_chown [simp]: "file_at (shutil_chown q s) p = file_at s p"
  by (simp add: file_at_def)

lemma file_at_put_file:
  "file_at (put_file p t s) q = (if resolve q = resolve p then Some t else file_at s q)"
  by (simp add: file_at_def put_file_def)

lemma shutil_copy_files:
  "shutil_copy src dst s = (r, s') \<Longrightarrow> resolve dst \<noteq> resolve p \<Longrightarrow> file_at s' p = file_at s p"
  by (auto simp: shutil_copy_def file_at_put_file split: option.splits if_splits)

lemma copy_each_buf:
  "copy_each log_dir bs buf s = (Inr (), buf', s') \<Longrightarrow>
     buf' = buf @ concat (map (\<lambda>b. os_path_join log_dir b @ [CHR 0x0A]) bs)"
proof (induction bs arbitrary: buf s)
  case Nil
  then show ?case by simp
next
  case (Cons b bs)
  obtain r s1 where c: "shutil_copy (os_path_join RESTORE_TEMP_DIR b) (os_path_join log_dir b) s = (r, s1)"
    by (cases "shutil_copy (os_path_join RESTORE_TEMP_DIR b) (os_path_join log_dir b) s")
  show ?case
  proof (cases r)
    case (Inl e)
    then show ?thesis using Cons.prems c by (simp add: Let_def)
  next
    case (Inr u)
    then have "copy_each log_dir bs (buf @ os_path_join log_dir b @ [CHR 0x0A])
                 (shutil_chown (os_path_join log_dir b) s1) = (Inr (), buf', s')"
      using Cons.prems c by (simp add: Let_def)
    from Cons.IH [OF this] show ?thesis by simp
  qed
qed

lemma copy_each_files:
  "copy_each log_dir bs buf s = (r, buf', s') \<Longrightarrow>
   \<forall>b\<in>set bs. resolve (os_path_join log_dir b) \<noteq> resolve p \<Longrightarrow> file_at s' p = file_at s p"
proof (induction bs arbitrary: buf s)
  case Nil
  then show ?case by simp
next
  case (Cons b bs)
  obtain r1 s1 where c: "shutil_copy (os_path_join RESTORE_TEMP_DIR b) (os_path_join log_dir b) s = (r1, s1)"
    by (cases "shutil_copy (os_path_join RESTORE_TEMP_DIR b) (os_path_join log_dir b) s")
  have keep: "file_at s1 p = file_at s p"
    using shutil_copy_files [OF c] Cons.prems(2) by simp
  show ?case
  proof (cases r1)
    case (Inl e)
    then show ?thesis using Cons.prems(1) c keep by (simp add: Let_def)
  next
    case (Inr u)
    then have "copy_each log_dir bs (buf @ os_path_join log_dir b @ [CHR 0x0A])
                 (shutil_chown (os_path_join log_dir b) s1) = (r, buf', s')"
      using Cons.prems(1) c by (simp add: Let_def)
    from Cons.IH [OF this] Cons.prems(2) keep show ?thesis by simp
  qed
qed

lemma copy_binlog_index_text:
  assumes ok: "fst (copy_binlog_to_new_path ctx manifest s) = Inr ()"
    and distinct: "\<forall>b\<in>set manifest.
        resolve (os_path_join (ctx_log_dir ctx) b)
          \<noteq> resolve (os_path_join (ctx_log_dir ctx) ''mysql_bin.index'')"
  shows "file_at (snd (copy_binlog_to_new_path ctx manifest s))
           (os_path_join (ctx_log_dir ctx) ''mysql_bin.index'')
         = Some (concat (map (\<lambda>b. os_path_join (ctx_log_dir ctx) b @ [CHR 0x0A]) manifest))"
proof -
  let ?idx = "os_path_join (ctx_log_dir ctx) ''mysql_bin.index''"
  let ?s0 = "emit (Write ?idx) (put_file ?idx [] s)"
  obtain r buf s1 where loop: "copy_each (ctx_log_dir ctx) manifest [] ?s0 = (r, buf, s1)"
    by (cases "copy_each (ctx_log_dir ctx) manifest [] ?s0")
  have r: "r = Inr ()"
    using ok loop by (cases r) (simp_all add: copy_binlog_to_new_path_def Let_def)
  have buf: "buf = concat (map (\<lambda>b. os_path_join (ctx_log_dir ctx) b @ [CHR 0x0A]) manifest)"
    using copy_each_buf [of "ctx_log_dir ctx" manifest "[]" ?s0 buf s1] loop r by simp
  have "file_at s1 ?idx = file_at ?s0 ?idx"
    using copy_each_files [OF loop distinct] .
  then have empty: "file_at s1 ?idx = Some []" by (simp add: file_at_put_file)
  have "snd (copy_binlog_to_new_path ctx manifest s) = shutil_chown ?idx (flush_close ?idx buf s1)"
    using loop r by (simp add: copy_binlog_to_new_path_def Let_def)
  then show ?thesis using empty buf by (simp add: flush_close_def file_at_put_file)
qed

lemma universal_newlines_plain: "CHR 0x0D \<notin> set t \<Longrightarrow> universal_newlines t = t"
  by (induction t rule: universal_newlines.induct) auto

lemma lines_keepends_line:
  "CHR 0x0A \<notin> set p \<Longrightarrow> lines_keepends cur (p @ CHR 0x0A # rest) = (cur @ p @ [CHR 0x0A]) # lines_keepends [] rest"
  by (induction p arbitrary: cur) auto

lemma lines_keepends_concat:
  "\<forall>p\<in>set ps. CHR 0x0A \<notin> set p \<Longrightarrow>
     lines_keepends [] (concat (map (\<lambda>p. p @ [CHR 0x0A]) ps)) = map (\<lambda>p. p @ [CHR 0x0A]) ps"
proof (induction ps)
  case Nil
  then show ?case by simp
next
  case (Cons p ps)
  then have "lines_keepends [] (p @ CHR 0x0A # concat (map (\<lambda>p. p @ [CHR 0x0A]) ps))
           = (p @ [CHR 0x0A]) # map (\<lambda>p. p @ [CHR 0x0A]) ps"
    using lines_keepends_line [of p "[]"] by simp
  then show ?case by simp
qed

lemma os_path_join_chars: "set (os_path_join a b) \<subseteq> set a \<union> set b \<union> {CHR ''/''}"
  by (auto simp: os_path_join_def)

lemma os_path_join_plain:
  assumes "c \<noteq> CHR ''/''" "c \<notin> set a" "c \<notin> set b"
  shows "c \<notin> set (os_path_join a b)"
  using assms os_path_join_chars [of a b] by auto

lemma os_path_join_absolute:
  "a \<noteq> [] \<Longrightarrow> hd a = CHR ''/'' \<Longrightarrow> os_path_join a b \<noteq> [] \<and> hd (os_path_join a b) = CHR ''/''"
  by (auto simp: os_path_join_def)

text \<open>
  C6 as stated, for every manifest, fails: a manifest entry that names the index file
  itself, as \<^verbatim>\<open>mysql_bin.index\<close> or by another spelling such as \<^verbatim>\<open>./mysql_bin.index\<close>, makes
  the copy land on the open index file, and the flush at closing overwrites only the
  start of the copied text. With the source's own two-line index file staged under that
  name the call returns, and the index file does not hold one path per entry.
\<close>

theorem index_file_entry_counterexample:
  "fst (copy_binlog_to_new_path (example_context Candidate) [''mysql_bin.index'']
         \<lparr>files = [''/data/mysql/restore/mysql_bin.index'' \<mapsto>
                    ''/data/mysql/log/mysql_bin.000001'' @ [CHR 0x0A] @
                    ''/data/mysql/log/mysql_bin.000002'' @ [CHR 0x0A]],
           dirs = {}, trace = []\<rparr>) = Inr ()
   \<and> file_readlines
        (snd (copy_binlog_to_new_path (example_context Candidate) [''mysql_bin.index'']
           \<lparr>files = [''/data/mysql/restore/mysql_bin.index'' \<mapsto>
                      ''/data/mysql/log/mysql_bin.000001'' @ [CHR 0x0A] @
                      ''/data/mysql/log/mysql_bin.000002'' @ [CHR 0x0A]],
             dirs = {}, trace = []\<rparr>))
        ''/data/mysql/log/mysql_bin.index''
      = Inr [''/data/mysql/log/mysql_bin.index'' @ [CHR 0x0A], [CHR 0x0A],
             ''/data/mysql/log/mysql_bin.000002'' @ [CHR 0x0A]]
   \<and> file_readlines
        (snd (copy_binlog_to_new_path (example_context Candidate) [''./mysql_bin.index'']
           \<lparr>files = [''/data/mysql/restore/mysql_bin.index'' \<mapsto>
                      ''/data/mysql/log/mysql_bin.000001'' @ [CHR 0x0A] @
                      ''/data/mysql/log/mysql_bin.000002'' @ [CHR 0x0A]],
             dirs = {}, trace = []\<rparr>))
        ''/data/mysql/log/mysql_bin.index''
      = Inr [''/data/mysql/log/./mysql_bin.index'' @ [CHR 0x0A],
             ''data/mysql/log/mysql_bin.000002'' @ [CHR 0x0A]]"
proof -
  have r: "resolve ''/data/mysql/restore/mysql_bin.index'' = ''/data/mysql/restore/mysql_bin.index''"
    "resolve ''/data/mysql/log/mysql_bin.index'' = ''/data/mysql/log/mysql_bin.index''"
    "resolve ''/data/mysql/restore/./mysql_bin.index'' = ''/data/mysql/restore/mysql_bin.index''"
    "resolve ''/data/mysql/log/./mysql_bin.index'' = ''/data/mysql/log/mysql_bin.index''"
    by (simp_all add: resolve_def)
  show ?thesis
    by (simp add: copy_binlog_to_new_path_def shutil_copy_def os_path_join_def RESTORE_TEMP_DIR_def
          example_context_def emit_def shutil_chown_def flush_close_def Let_def file_at_def
          put_file_def r file_readlines_def read_text_def py_readlines_def)
qed

text \<open>
  C6, amended: when \<^verbatim>\<open>copy_binlog_to_new_path\<close> returns and no entry of the manifest
  resolves to the index file itself, the index file holds, whatever it held before,
  exactly the paths \<^verbatim>\<open>os.path.join(log_dir, name)\<close> of the manifest's names, in manifest
  order, each followed by a newline; reading the file back with \<^verbatim>\<open>readlines()\<close> gives
  these lines again, and with an absolute log directory every path is absolute. The
  names are those of a manifest: no line break in them.
\<close>

theorem index_file_lists_manifest:
  assumes ok: "fst (copy_binlog_to_new_path ctx manifest s) = Inr ()"
    and distinct: "\<forall>b\<in>set manifest.
        resolve (os_path_join (ctx_log_dir ctx) b)
          \<noteq> resolve (os_path_join (ctx_log_dir ctx) ''mysql_bin.index'')"
    and plain: "\<forall>b\<in>set (ctx_log_dir ctx # manifest). CHR 0x0A \<notin> set b \<and> CHR 0x0D \<notin> set b"
    and absolute: "ctx_log_dir ctx \<noteq> [] \<and> hd (ctx_log_dir ctx) = CHR ''/''"
  shows "file_at (snd (copy_binlog_to_new_path ctx manifest s))
           (os_path_join (ctx_log_dir ctx) ''mysql_bin.index'')
         = Some (concat (map (\<lambda>b. os_path_join (ctx_log_dir ctx) b @ [CHR 0x0A]) manifest))
       \<and> file_readlines (snd (copy_binlog_to_new_path ctx manifest s))
           (os_path_join (ctx_log_dir ctx) ''mysql_bin.index'')
         = Inr (map (\<lambda>b. os_path_join (ctx_log_dir ctx) b @ [CHR 0x0A]) manifest)
       \<and> (\<forall>b\<in>set manifest. hd (os_path_join (ctx_log_dir ctx) b) = CHR ''/'')"
proof -
  let ?path = "os_path_join (ctx_log_dir ctx)"
  let ?text = "concat (map (\<lambda>b. ?path b @ [CHR 0x0A]) manifest)"
  have written: "file_at (snd (copy_binlog_to_new_path ctx manifest s)) (?path ''mysql_bin.index'')
               = Some ?text"
    using ok distinct by (rule copy_binlog_index_text)
  have "CHR 0x0A \<notin> set (?path b)" "CHR 0x0D \<notin> set (?path b)" if "b \<in> set manifest" for b
    using plain that by (simp_all add: os_path_join_plain)
  then have no_lf: "\<forall>p\<in>set (map ?path manifest). CHR 0x0A \<notin> set p"
    and no_cr: "\<forall>p\<in>set (map ?path manifest). CHR 0x0D \<notin> set p"
    by simp_all
  from no_cr have "CHR 0x0D \<notin> set ?text" by auto
  then have same: "universal_newlines ?text = ?text" by (rule universal_newlines_plain)
  have "lines_keepends [] (concat (map (\<lambda>p. p @ [CHR 0x0A]) (map ?path manifest)))
      = map (\<lambda>p. p @ [CHR 0x0A]) (map ?path manifest)"
    using no_lf by (rule lines_keepends_concat)
  then have lines: "lines_keepends [] ?text = map (\<lambda>b. ?path b @ [CHR 0x0A]) manifest"
    by (simp add: comp_def)
  have reread: "file_readlines (snd (copy_binlog_to_new_path ctx manifest s)) (?path ''mysql_bin.index'')
              = Inr (map (\<lambda>b. ?path b @ [CHR 0x0A]) manifest)"
    using written same lines by (simp add: file_readlines_def read_text_def py_readlines_def)
  have "\<forall>b\<in>set manifest. hd (?path b) = CHR ''/''"
    using absolute os_path_join_absolute by blast
  then show ?thesis using written reread by blast
qed

theorem index_file_lists_manifest_witness:
  "file_readlines
     (snd (copy_binlog_to_new_path (example_context Candidate)
        [''seg.000001'', ''seg.000003'', ''seg.000002'']
        \<lparr>files = [''/data/mysql/restore/seg.000001'' \<mapsto> ''one'',
                  ''/data/mysql/restore/seg.000002'' \<mapsto> ''two'',
                  ''/data/mysql/restore/seg.000003'' \<mapsto> ''three'',
                  ''/data/mysql/log/mysql_bin.index'' \<mapsto> ''/old/mysql_bin.000007'' @ [CHR 0x0A]],
          dirs = {}, trace = []\<rparr>))
     ''/data/mysql/log/mysql_bin.index''
   = Inr [''/data/mysql/log/seg.000001'' @ [CHR 0x0A],
          ''/data/mysql/log/seg.000003'' @ [CHR 0x0A],
          ''/data/mysql/log/seg.000002'' @ [CHR 0x0A]]"
proof -
  have r: "resolve ''/data/mysql/restore/seg.000001'' = ''/data/mysql/restore/seg.000001''"
    "resolve ''/data/mysql/restore/seg.000002'' = ''/data/mysql/restore/seg.000002''"
    "resolve ''/data/mysql/restore/seg.000003'' = ''/data/mysql/restore/seg.000003''"
    "resolve ''/data/mysql/log/seg.000001'' = ''/data/mysql/log/seg.000001''"
    "resolve ''/data/mysql/log/seg.000002'' = ''/data/mysql/log/seg.000002''"
    "resolve ''/data/mysql/log/seg.000003'' = ''/data/mysql/log/seg.000003''"
    "resolve ''/data/mysql/log/mysql_bin.index'' = ''/data/mysql/log/mysql_bin.index''"
    by (simp_all add: resolve_def)
  show ?thesis
    using index_file_lists_manifest
      [of "example_context Candidate" "[''seg.000001'', ''seg.000003'', ''seg.000002'']"
          "\<lparr>files = [''/data/mysql/restore/seg.000001'' \<mapsto> ''one'',
                    ''/data/mysql/restore/seg.000002'' \<mapsto> ''two'',
                    ''/data/mysql/restore/seg.000003'' \<mapsto> ''three'',
                    ''/data/mysql/log/mysql_bin.index'' \<mapsto> ''/old/mysql_bin.000007'' @ [CHR 0x0A]],
            dirs = {}, trace = []\<rparr>"]
    by (simp add: copy_binlog_to_new_path_def shutil_copy_def os_path_join_def RESTORE_TEMP_DIR_def
          example_context_def emit_def shutil_chown_def flush_close_def Let_def file_at_def
          put_file_def r)
qed

section \<open>The phases before the engine starts\<close>

text \<open>
  Every phase only adds preparatory events to the trace, so the same holds for their
  sequence: whatever the environment answers, no engine is started, killed or waited for
  before \<^verbatim>\<open>init_mysqld_metadata\<close> has returned.
\<close>


lemma prepares_refl [simp]: "prepares s s"
  by (simp add: prepares_def)

lemma prepares_trans: "prepares s s1 \<Longrightarrow> prepares s1 s2 \<Longrightarrow> prepares s s2"
  by (auto simp: prepares_def)

lemma prepares_emit: "preparatory e \<Longrightarrow> prepares s s1 \<Longrightarrow> prepares s (emit e s1)"
  by (auto simp: prepares_def emit_def)

lemma prepares_files [simp]: "prepares s (s1\<lparr>files := f\<rparr>) = prepares s s1"
  by (simp add: prepares_def)

lemma prepares_dirs [simp]: "prepares s (s1\<lparr>dirs := d\<rparr>) = prepares s s1"
  by (simp add: prepares_def)

lemma prepares_put_file [simp]: "prepares s (put_file p t s1) = prepares s s1"
  by (simp add: put_file_def)

lemma prepares_mkdir: "prepares s s1 \<Longrightarrow> prepares s (mkdir_if_missing p s1)"
  by (simp add: mkdir_if_missing_def prepares_emit)

lemma prepares_chown: "prepares s s1 \<Longrightarrow> prepares s (shutil_chown p s1)"
  by (simp add: shutil_chown_def prepares_emit)

lemma prepares_mkdir_needed: "prepares s (mkdir_needed ctx s)"
  by (simp add: mkdir_needed_def Let_def prepares_mkdir prepares_chown)

lemma prepares_download: "prepares s s1 \<Longrightarrow> prepares s (snd (download_to_file w r l s1))"
  by (simp add: download_to_file_def prepares_emit split: option.splits)

lemma prepares_run_process: "prepares s s1 \<Longrightarrow> prepares s (snd (run_process w cmd s1))"
  by (simp add: run_process_def prepares_emit split_def Let_def)

lemma prepares_check_run_process:
  "prepares s s1 \<Longrightarrow> prepares s (snd (check_run_process w cmd s1))"
  using prepares_run_process [of s s1 w cmd]
  by (simp add: check_run_process_def split_def Let_def)

lemma prepares_decompress: "prepares s (snd (decompress_backup_file w n s))"
  using prepares_run_process [of s s w]
  by (simp add: decompress_backup_file_def split_def Let_def)

lemma prepares_apply: "prepares s (snd (apply_backup_file ctx w s))"
  using prepares_run_process [of s s w]
  by (simp add: apply_backup_file_def Let_def split_def)

lemma prepares_mycnf: "prepares s (snd (initialize_local_mycnf ctx w s))"
  by (simp add: initialize_local_mycnf_def Let_def prepares_emit prepares_mkdir)

lemma prepares_download_each:
  "prepares s s1 \<Longrightarrow> prepares s (snd (download_each w d bs s1))"
proof (induction bs arbitrary: s1)
  case Nil
  then show ?case by simp
next
  case (Cons b bs)
  have step: "prepares s (snd (download_to_file w (os_path_join d b) (os_path_join RESTORE_TEMP_DIR b) s1))"
    using Cons.prems by (rule prepares_download)
  show ?case
  proof (cases "download_to_file w (os_path_join d b) (os_path_join RESTORE_TEMP_DIR b) s1")
    case (Pair r s2)
    then show ?thesis using step Cons.IH [of s2] by (cases r) simp_all
  qed
qed

lemma prepares_bind:
  assumes "\<And>s1. prepares s s1 \<Longrightarrow> prepares s (snd (m s1))"
    and "\<And>a s1. prepares s s1 \<Longrightarrow> prepares s (snd (f a s1))"
    and "prepares s s0"
  shows "prepares s (snd (bind_io m f s0))"
proof (cases "m s0")
  case (Pair r s1)
  then have "prepares s s1" using assms(1) [OF assms(3)] by simp
  then show ?thesis using Pair assms(2) by (cases r) (simp_all add: bind_io_def)
qed

lemma prepares_pure: "prepares s s1 \<Longrightarrow> prepares s (snd (x, s1))"
  by simp

lemma prepares_download_binlog:
  "prepares s s1 \<Longrightarrow> prepares s (snd (download_binlogbackup_file w dir s1))"
proof (cases dir)
  case (JString d)
  assume "prepares s s1"
  then show ?thesis
    unfolding download_binlogbackup_file_def JString json.case Let_def
    by (intro prepares_bind prepares_download prepares_download_each prepares_pure)
qed (simp_all add: download_binlogbackup_file_def)

lemma prepares_copy: "prepares s s1 \<Longrightarrow> prepares s (snd (shutil_copy a b s1))"
  by (simp add: shutil_copy_def prepares_emit split: option.splits)

lemma prepares_copy_each:
  "prepares s s1 \<Longrightarrow> prepares s (snd (snd (copy_each log_dir bs buf s1)))"
proof (induction bs arbitrary: buf s1)
  case Nil
  then show ?case by simp
next
  case (Cons b bs)
  have step: "prepares s (snd (shutil_copy (os_path_join RESTORE_TEMP_DIR b) (os_path_join log_dir b) s1))"
    using Cons.prems by (rule prepares_copy)
  show ?case
  proof (cases "shutil_copy (os_path_join RESTORE_TEMP_DIR b) (os_path_join log_dir b) s1")
    case (Pair r s2)
    then show ?thesis
      using step Cons.IH [of "shutil_chown (os_path_join log_dir b) s2"]
      by (cases r) (simp_all add: Let_def prepares_chown)
  qed
qed

lemma prepares_copy_binlog:
  assumes "prepares s s1"
  shows "prepares s (snd (copy_binlog_to_new_path ctx bs s1))"
proof -
  let ?idx = "os_path_join (ctx_log_dir ctx) ''mysql_bin.index''"
  let ?s0 = "emit (Write ?idx) (put_file ?idx [] s1)"
  have "prepares s ?s0" using assms by (simp add: prepares_emit)
  then have loop: "prepares s (snd (snd (copy_each (ctx_log_dir ctx) bs [] ?s0)))"
    by (rule prepares_copy_each)
  obtain r buf s2 where c: "copy_each (ctx_log_dir ctx) bs [] ?s0 = (r, buf, s2)"
    by (cases "copy_each (ctx_log_dir ctx) bs [] ?s0")
  then have "prepares s s2" using loop by simp
  then show ?thesis
    using c by (cases r) (simp_all add: copy_binlog_to_new_path_def Let_def flush_close_def prepares_chown)
qed

lemma prepares_show_index: "prepares s s1 \<Longrightarrow> prepares s (snd (show_binlog_index w n s1))"
  using prepares_run_process [of s s1 w]
  by (simp add: show_binlog_index_def Let_def split_def)

lemma prepares_init_meta:
  "prepares s s1 \<Longrightarrow> prepares s (snd (init_mysqld_metadata a b w t r s1))"
  by (simp add: init_mysqld_metadata_def prepares_check_run_process)

lemma prepares_restore_steps:
  "prepares s (snd (restore_steps ctx w ci bfp bdp sn s))"
  unfolding restore_steps_def split_def chown_data_dir_def download_backup_file_def
  by (intro prepares_bind prepares_pure prepares_download prepares_check_run_process
        prepares_init_meta prepares_show_index prepares_download_binlog prepares_refl
        prepares_trans [OF _ prepares_copy_binlog [OF prepares_refl]]
        prepares_trans [OF _ prepares_decompress] prepares_trans [OF _ prepares_mycnf]
        prepares_trans [OF _ prepares_apply] prepares_trans [OF _ prepares_mkdir_needed])


section \<open>A run on the concrete node\<close>

text \<open>
  On the concrete node the phases succeed one after the other, for every exit status of
  the shell commands: only \<^verbatim>\<open>chown\<close> and the force-init run are checked.
\<close>

lemma bind_io_ok: "fst (m s) = Inr a \<Longrightarrow> bind_io m f s = f a (snd (m s))"
  by (cases "m s") (simp add: bind_io_def)

lemma marker_never_raises: "\<exists>v. get_xtrabackup_binlog_info_from_instance_local m = Inr v"
proof (cases m)
  case None
  then show ?thesis by (simp add: get_xtrabackup_binlog_info_from_instance_local_def)
next
  case (Some t)
  then show ?thesis by (simp add: marker_tokens split: list.splits)
qed

lemma example_paths:
  "resolve ''/data/mysql/restore/full.xbstream'' = ''/data/mysql/restore/full.xbstream''"
  "resolve ''/data/mysql/restore/binlog_list'' = ''/data/mysql/restore/binlog_list''"
  "resolve ''/data/mysql/restore/mysql_bin.000001'' = ''/data/mysql/restore/mysql_bin.000001''"
  "resolve ''/data/mysql/restore/mysql_bin.000002'' = ''/data/mysql/restore/mysql_bin.000002''"
  "resolve ''/data/mysql/log/mysql_bin.000001'' = ''/data/mysql/log/mysql_bin.000001''"
  "resolve ''/data/mysql/log/mysql_bin.000002'' = ''/data/mysql/log/mysql_bin.000002''"
  "resolve ''/data/mysql/log/mysql_bin.index'' = ''/data/mysql/log/mysql_bin.index''"
  by (simp_all add: resolve_def)

lemma example_download_backup:
  "fst (download_backup_file (example_world ex rd an) ''backups/full.xbstream'' ''full.xbstream'' s)
     = Inr ()"
  by (simp add: download_backup_file_def download_to_file_def example_world_def)

lemma example_manifest:
  "fst (download_binlogbackup_file (example_world ex rd an) (JString ''binlogs'') s)
     = Inr [''mysql_bin.000001'', ''mysql_bin.000002'']"
  by (simp add: download_binlogbackup_file_def bind_io_def download_to_file_def read_text_def
        os_path_join_def RESTORE_TEMP_DIR_def example_world_def py_splitlines_def is_linebreak_def
        emit_def Let_def file_at_def put_file_def example_paths)

lemma example_staged:
  "file_at (snd (download_binlogbackup_file (example_world ex rd an) (JString ''binlogs'') s))
     ''/data/mysql/restore/mysql_bin.000001'' = Some ''segment one''
   \<and> file_at (snd (download_binlogbackup_file (example_world ex rd an) (JString ''binlogs'') s))
     ''/data/mysql/restore/mysql_bin.000002'' = Some ''segment two''"
  by (simp add: download_binlogbackup_file_def bind_io_def download_to_file_def read_text_def
        os_path_join_def RESTORE_TEMP_DIR_def example_world_def py_splitlines_def is_linebreak_def
        emit_def Let_def file_at_def put_file_def example_paths)

lemma example_copy_ok:
  "file_at s ''/data/mysql/restore/mysql_bin.000001'' = Some a \<Longrightarrow>
   file_at s ''/data/mysql/restore/mysql_bin.000002'' = Some b \<Longrightarrow>
   fst (copy_binlog_to_new_path (example_context r) [''mysql_bin.000001'', ''mysql_bin.000002''] s)
     = Inr ()"
  by (simp add: copy_binlog_to_new_path_def shutil_copy_def os_path_join_def RESTORE_TEMP_DIR_def
        example_context_def emit_def shutil_chown_def flush_close_def Let_def file_at_def
        put_file_def example_paths)

lemma example_index_text:
  assumes "fst (copy_binlog_to_new_path (example_context r) [''mysql_bin.000001'', ''mysql_bin.000002''] s)
             = Inr ()"
  shows "file_at (snd (copy_binlog_to_new_path (example_context r)
                  [''mysql_bin.000001'', ''mysql_bin.000002''] s))
           ''/data/mysql/log/mysql_bin.index''
         = Some (''/data/mysql/log/mysql_bin.000001'' @ [CHR 0x0A] @
                 ''/data/mysql/log/mysql_bin.000002'' @ [CHR 0x0A])"
  using copy_binlog_index_text [OF assms]
  by (simp add: os_path_join_def example_context_def example_paths)

lemma example_last_binlog:
  "file_at s ''/data/mysql/log/mysql_bin.index''
     = Some (''/data/mysql/log/mysql_bin.000001'' @ [CHR 0x0A] @
             ''/data/mysql/log/mysql_bin.000002'' @ [CHR 0x0A]) \<Longrightarrow>
   show_last_and_first_binlog (example_context r) s = Inr (2, 1)"
  by (simp add: show_last_and_first_binlog_def file_readlines_def read_text_def os_path_join_def
        example_context_def py_readlines_def py_index_def py_int_def py_strip_by_def
        int_isspace_def int_unsigned_def py_isdigit_def digit_val_def)

lemma example_check_run:
  "ex cmd = 0 \<Longrightarrow> fst (check_run_process (example_world ex rd an) cmd s) = Inr ()"
  by (simp add: check_run_process_def run_process_def example_world_def)

lemma example_check_run_files:
  "file_at (snd (check_run_process (example_world ex rd an) cmd s)) p = file_at s p"
  by (simp add: check_run_process_def run_process_def example_world_def file_at_def)

lemma example_show_index:
  "fst (show_binlog_index (example_world ex rd an) n s) = Inr (''37'', ''2'')"
  by (simp add: show_binlog_index_def run_process_def example_world_def Let_def
        xdb_show_binlog_index_def py_strip_def py_strip_by_def py_isspace_def is_bracket_def
        py_index_def)

lemma example_final_segment:
  "final_segment (JString ''backups/full.xbstream'') = Inr (''backups/full.xbstream'', ''full.xbstream'')"
  by (simp add: final_segment_def py_index_def)

lemma example_reaches_engine:
  assumes role: "r \<noteq> Voter"
    and chown: "ex ChownDataDir = 0"
    and init: "\<forall>v. ex (ForceInitMeta ''2'' v) = 0"
  shows "fst (restore_steps (example_context r) (example_world ex rd an) ci
               (JString ''backups/full.xbstream'') (JString ''binlogs'') (JString ''oss'') s)
         = Inr ''37''"
proof -
  let ?c = "example_context r" and ?w = "example_world ex rd an"
  let ?s1 = "mkdir_needed ?c s"
  let ?s2 = "snd (download_backup_file ?w ''backups/full.xbstream'' ''full.xbstream'' ?s1)"
  let ?s3 = "snd (decompress_backup_file ?w ''full.xbstream'' ?s2)"
  let ?s4 = "snd (initialize_local_mycnf ?c ?w ?s3)"
  let ?s5 = "snd (apply_backup_file ?c ?w ?s4)"
  let ?s6 = "snd (download_binlogbackup_file ?w (JString ''binlogs'') ?s5)"
  let ?s7 = "snd (copy_binlog_to_new_path ?c [''mysql_bin.000001'', ''mysql_bin.000002''] ?s6)"
  let ?s8 = "snd (chown_data_dir ?w ?s7)"
  let ?s9 = "snd (show_binlog_index ?w 2 ?s8)"
  have p0: "file_stream_client ?w (JString ''oss'') = Inr ()"
    by (simp add: file_stream_client_def example_world_def)
  have p3: "fst (decompress_backup_file ?w ''full.xbstream'' ?s2) = Inr ()"
    by (simp add: decompress_backup_file_def split_def Let_def)
  have p4: "fst (initialize_local_mycnf ?c ?w ?s3) = Inr ()"
    by (simp add: initialize_local_mycnf_def Let_def)
  have p5: "fst (apply_backup_file ?c ?w ?s4) = Inr ()"
    by (simp add: apply_backup_file_def split_def Let_def)
  have p7: "fst (copy_binlog_to_new_path ?c [''mysql_bin.000001'', ''mysql_bin.000002''] ?s6) = Inr ()"
    using example_staged [of ex rd an ?s5] by (intro example_copy_ok) simp_all
  obtain v where p7m: "get_xtrabackup_binlog_info_from_instance_local (local_marker ?c ?s7) = Inr v"
    using marker_never_raises by blast
  have p8: "fst (chown_data_dir ?w ?s7) = Inr ()"
    using chown by (simp add: chown_data_dir_def example_check_run)
  have "file_at ?s8 ''/data/mysql/log/mysql_bin.index'' = file_at ?s7 ''/data/mysql/log/mysql_bin.index''"
    by (simp add: chown_data_dir_def example_check_run_files)
  then have p8l: "show_last_and_first_binlog ?c ?s8 = Inr (2, 1)"
    using example_index_text [OF p7] by (intro example_last_binlog) simp
  have p10: "fst (init_mysqld_metadata (marker_value v) ci ?w ''2'' (ctx_node_role ?c) ?s9) = Inr ()"
    using role init by (simp add: init_mysqld_metadata_def example_check_run example_context_def)
  show ?thesis
    unfolding restore_steps_def
    by (simp add: bind_io_ok p0 example_final_segment example_download_backup p3 p4 p5
          example_manifest p7 p7m p8 p8l example_show_index p10)
qed

section \<open>The engine process\<close>

text \<open>
  From the start of the engine on, the run is the monitor followed, when the monitor
  returns, by kill, wait, sync and the initialized mark.
\<close>


lemma trace_emit [simp]: "trace (emit e s) = trace s @ [e]"
  by (simp add: emit_def)

lemma trace_passes: "trace ((one_pass ^^ n) s) = trace s @ concat (replicate n [Sleep 10, Query])"
proof (induction n)
  case 0
  then show ?case by simp
next
  case (Suc n)
  have "concat (replicate n [Sleep 10, Query]) @ [Sleep 10, Query]
      = [Sleep 10, Query] @ concat (replicate n [Sleep 10, Query])"
    by (induction n) simp_all
  then show ?case using Suc by (simp add: one_pass_def)
qed

lemma finish_trace:
  "\<exists>r s'. finish_steps w s = (r, s')
     \<and> trace s' = trace s @ [Kill, WaitExit, Exec SyncMeta] @ (if r = Inr () then [MarkInitialized] else [])"
  by (simp add: finish_steps_def bind_io_def sync_cluster_metadata_def check_run_process_def
        run_process_def split_def Let_def)

lemma start_after_steps:
  assumes fields: "params ''backupCommitIndex'' = Some ci" "params ''backupFilePath'' = Some bfp"
      "params ''binlogDirPath'' = Some bdp" "params ''storageName'' = Some sn"
      "params ''sink'' = Some sink"
    and role: "ctx_node_role ctx = Candidate \<or> ctx_node_role ctx = Learner"
    and reached: "fst (restore_steps ctx w ci bfp bdp sn s) = Inr end_index"
  shows "start ctx w params s =
     (case wait_binlog_apply_ready w end_index
             (emit (Spawn Mysqld) (snd (restore_steps ctx w ci bfp bdp sn s))) of
        None \<Rightarrow> None
      | Some (Inl e, s2) \<Rightarrow> Some (Inl e, s2)
      | Some (Inr _, s2) \<Rightarrow> Some (finish_steps w s2))"
proof -
  obtain s1 where "restore_steps ctx w ci bfp bdp sn s = (Inr end_index, s1)"
    using reached by (cases "restore_steps ctx w ci bfp bdp sn s") simp
  then show ?thesis
    using fields role by (auto simp add: start_def lookup_def)
qed

lemma monitor_timeout:
  assumes "clock w 0 + 48 * 60 * 60 \<le> clock w (Suc n)"
    and "\<forall>i<n. clock w (Suc i) < clock w 0 + 48 * 60 * 60
               \<and> check_binlog_apply_index_status (poll w i) e \<noteq> Inr True"
  shows "wait_binlog_apply_ready w e s
           = Some (Inl (TimeoutError ''binlog apply timeout!''), (one_pass ^^ n) s)"
  unfolding wait_binlog_apply_ready_def Let_def
  using assms by (intro wait_loop_timeout) simp_all

lemma monitor_ready:
  assumes "clock w (Suc n) < clock w 0 + 48 * 60 * 60"
    and "check_binlog_apply_index_status (poll w n) e = Inr True"
    and "\<forall>i<n. clock w (Suc i) < clock w 0 + 48 * 60 * 60
               \<and> check_binlog_apply_index_status (poll w i) e \<noteq> Inr True"
  shows "wait_binlog_apply_ready w e s = Some (Inr (), (one_pass ^^ Suc n) s)"
  unfolding wait_binlog_apply_ready_def Let_def
proof (rule wait_loop_ready)
  show "\<forall>j\<le>n. clock w (Suc (0 + j)) < clock w 0 + 48 * 60 * 60"
    using assms(1,3) by (metis add_0 le_neq_implies_less)
  show "\<forall>j<n. check_binlog_apply_index_status (poll w (0 + j)) e \<noteq> Inr True"
    using assms(3) by simp
  show "check_binlog_apply_index_status (poll w (0 + n)) e = Inr True"
    using assms(2) by simp
qed

text \<open>
  What the driver does from the start of the engine on, for a run that passes the role
  check and gets through the phases: after the preparatory events the trace holds the
  engine's start and one sleep and one query per pass of the monitor. If pass \<open>n\<close> finds
  the node ready before the deadline, the kill and the wait for the engine's exit follow
  at once, before the sync. If instead pass \<open>n\<close> is the first to find the deadline
  reached, the run ends there with the timeout error and nothing follows the last query.
\<close>

lemma start_from_engine_on:
  assumes fields: "params ''backupCommitIndex'' = Some ci" "params ''backupFilePath'' = Some bfp"
      "params ''binlogDirPath'' = Some bdp" "params ''storageName'' = Some sn"
      "params ''sink'' = Some sink"
    and role: "ctx_node_role ctx = Candidate \<or> ctx_node_role ctx = Learner"
    and reached: "fst (restore_steps ctx w ci bfp bdp sn s) = Inr end_index"
    and early: "\<forall>i<n. clock w (Suc i) < clock w 0 + 48 * 60 * 60
                  \<and> check_binlog_apply_index_status (poll w i) end_index \<noteq> Inr True"
  shows "(clock w (Suc n) < clock w 0 + 48 * 60 * 60
            \<and> check_binlog_apply_index_status (poll w n) end_index = Inr True
          \<longrightarrow> (\<exists>r s' es. start ctx w params s = Some (r, s') \<and> list_all preparatory es
                \<and> trace s' = trace s @ es @ [Spawn Mysqld]
                     @ concat (replicate (Suc n) [Sleep 10, Query])
                     @ [Kill, WaitExit, Exec SyncMeta]
                     @ (if r = Inr () then [MarkInitialized] else [])))
       \<and> (clock w 0 + 48 * 60 * 60 \<le> clock w (Suc n)
          \<longrightarrow> (\<exists>s' es. start ctx w params s = Some (Inl (TimeoutError ''binlog apply timeout!''), s')
                \<and> list_all preparatory es
                \<and> trace s' = trace s @ es @ [Spawn Mysqld] @ concat (replicate n [Sleep 10, Query])))"
proof -
  let ?s1 = "snd (restore_steps ctx w ci bfp bdp sn s)"
  obtain es where es: "trace ?s1 = trace s @ es" "list_all preparatory es"
    using prepares_restore_steps [of s ctx w ci bfp bdp sn] by (auto simp: prepares_def)
  note run = start_after_steps [OF fields role reached]
  have ready: "\<exists>r s' es. start ctx w params s = Some (r, s') \<and> list_all preparatory es
                \<and> trace s' = trace s @ es @ [Spawn Mysqld]
                     @ concat (replicate (Suc n) [Sleep 10, Query])
                     @ [Kill, WaitExit, Exec SyncMeta]
                     @ (if r = Inr () then [MarkInitialized] else [])"
    if "clock w (Suc n) < clock w 0 + 48 * 60 * 60"
      "check_binlog_apply_index_status (poll w n) end_index = Inr True"
  proof -
    let ?s2 = "(one_pass ^^ Suc n) (emit (Spawn Mysqld) ?s1)"
    have m: "wait_binlog_apply_ready w end_index (emit (Spawn Mysqld) ?s1) = Some (Inr (), ?s2)"
      using that early by (rule monitor_ready)
    obtain r s' where f: "finish_steps w ?s2 = (r, s')"
      "trace s' = trace ?s2 @ [Kill, WaitExit, Exec SyncMeta] @ (if r = Inr () then [MarkInitialized] else [])"
      using finish_trace [of w ?s2] by blast
    have "start ctx w params s = Some (r, s')" using run m f(1) by simp
    moreover have "trace s' = trace s @ es @ [Spawn Mysqld]
                     @ concat (replicate (Suc n) [Sleep 10, Query])
                     @ [Kill, WaitExit, Exec SyncMeta]
                     @ (if r = Inr () then [MarkInitialized] else [])"
      using f(2) es(1) by (simp only: trace_passes trace_emit append_assoc)
    ultimately show ?thesis using es(2) by blast
  qed
  have late: "\<exists>s' es. start ctx w params s = Some (Inl (TimeoutError ''binlog apply timeout!''), s')
                \<and> list_all preparatory es
                \<and> trace s' = trace s @ es @ [Spawn Mysqld] @ concat (replicate n [Sleep 10, Query])"
    if "clock w 0 + 48 * 60 * 60 \<le> clock w (Suc n)"
  proof -
    let ?s2 = "(one_pass ^^ n) (emit (Spawn Mysqld) ?s1)"
    have m: "wait_binlog_apply_ready w end_index (emit (Spawn Mysqld) ?s1)
           = Some (Inl (TimeoutError ''binlog apply timeout!''), ?s2)"
      using that early by (rule monitor_timeout)
    have "start ctx w params s = Some (Inl (TimeoutError ''binlog apply timeout!''), ?s2)"
      using run m by simp
    moreover have "trace ?s2 = trace s @ es @ [Spawn Mysqld] @ concat (replicate n [Sleep 10, Query])"
      using es(1) by (simp only: trace_passes trace_emit append_assoc)
    ultimately show ?thesis using es(2) by blast
  qed
  show ?thesis using ready late by blast
qed


lemma example_fields:
  "example_params ci ''backupCommitIndex'' = Some ci"
  "example_params ci ''backupFilePath'' = Some (JString ''backups/full.xbstream'')"
  "example_params ci ''binlogDirPath'' = Some (JString ''binlogs'')"
  "example_params ci ''storageName'' = Some (JString ''oss'')"
  "example_params ci ''sink'' = Some (JString ''default'')"
  by (simp_all add: example_params_def)

lemma example_role [simp]: "ctx_node_role (example_context r) = r"
  by (simp add: example_context_def)

lemma preparatory_no_kill: "list_all preparatory es \<Longrightarrow> Kill \<notin> set es"
  by (auto simp: list_all_iff)

lemma restore_steps_no_kill:
  "Kill \<notin> set (trace s) \<Longrightarrow> Kill \<notin> set (trace (snd (restore_steps ctx w ci bfp bdp sn s)))"
  using prepares_restore_steps [of s ctx w ci bfp bdp sn] preparatory_no_kill
  by (auto simp: prepares_def)

lemma passes_no_kill:
  "Kill \<notin> set (trace s) \<Longrightarrow> WaitExit \<notin> set (trace s) \<Longrightarrow>
     Kill \<notin> set (trace ((one_pass ^^ n) s)) \<and> WaitExit \<notin> set (trace ((one_pass ^^ n) s))"
  by (induction n) (simp_all add: one_pass_def)

lemma preparatory_no_wait: "list_all preparatory es \<Longrightarrow> WaitExit \<notin> set es"
  by (auto simp: list_all_iff)

lemma restore_steps_no_wait:
  "WaitExit \<notin> set (trace s) \<Longrightarrow>
     WaitExit \<notin> set (trace (snd (restore_steps ctx w ci bfp bdp sn s)))"
  using prepares_restore_steps [of s ctx w ci bfp bdp sn] preparatory_no_wait
  by (auto simp: prepares_def)

lemma passes_keep_spawn:
  "Spawn c \<in> set (trace s) \<Longrightarrow> Spawn c \<in> set (trace ((one_pass ^^ n) s))"
  by (simp add: trace_passes)

text \<open>
  C8 requires the engine to be killed and waited for also when the catch-up monitor
  fails with its timeout. The code does not do that. On the concrete node, with an engine
  whose last-applied index stays at 36 below the target 37 and a clock that advances ten
  seconds per pass, the monitor raises the timeout error after 17279 passes (48 hours),
  and the run ends with that error in the state the monitor left: the engine was
  started, and it was neither killed nor waited for.
\<close>

theorem engine_left_running_on_timeout:
  "start (example_context Candidate)
     (example_world (\<lambda>cmd. 0) (\<lambda>k. real k * 10)
        (\<lambda>i. (0, ''1'' @ [CHR 0x09] @ ''36'' @ [CHR 0x09] @ ''Yes'' @ [CHR 0x09] @ ''Normal'')))
     (example_params JNull) empty_sys
   = Some (Inl (TimeoutError ''binlog apply timeout!''),
       (one_pass ^^ 17279)
         (emit (Spawn Mysqld)
           (snd (restore_steps (example_context Candidate)
              (example_world (\<lambda>cmd. 0) (\<lambda>k. real k * 10)
                 (\<lambda>i. (0, ''1'' @ [CHR 0x09] @ ''36'' @ [CHR 0x09] @ ''Yes'' @ [CHR 0x09] @ ''Normal'')))
              JNull (JString ''backups/full.xbstream'') (JString ''binlogs'') (JString ''oss'')
              empty_sys))))
   \<and> Spawn Mysqld \<in> set (trace ((one_pass ^^ 17279)
         (emit (Spawn Mysqld)
           (snd (restore_steps (example_context Candidate)
              (example_world (\<lambda>cmd. 0) (\<lambda>k. real k * 10)
                 (\<lambda>i. (0, ''1'' @ [CHR 0x09] @ ''36'' @ [CHR 0x09] @ ''Yes'' @ [CHR 0x09] @ ''Normal'')))
              JNull (JString ''backups/full.xbstream'') (JString ''binlogs'') (JString ''oss'')
              empty_sys)))))
   \<and> Kill \<notin> set (trace ((one_pass ^^ 17279)
         (emit (Spawn Mysqld)
           (snd (restore_steps (example_context Candidate)
              (example_world (\<lambda>cmd. 0) (\<lambda>k. real k * 10)
                 (\<lambda>i. (0, ''1'' @ [CHR 0x09] @ ''36'' @ [CHR 0x09] @ ''Yes'' @ [CHR 0x09] @ ''Normal'')))
              JNull (JString ''backups/full.xbstream'') (JString ''binlogs'') (JString ''oss'')
              empty_sys)))))
   \<and> WaitExit \<notin> set (trace ((one_pass ^^ 17279)
         (emit (Spawn Mysqld)
           (snd (restore_steps (example_context Candidate)
              (example_world (\<lambda>cmd. 0) (\<lambda>k. real k * 10)
                 (\<lambda>i. (0, ''1'' @ [CHR 0x09] @ ''36'' @ [CHR 0x09] @ ''Yes'' @ [CHR 0x09] @ ''Normal'')))
              JNull (JString ''backups/full.xbstream'') (JString ''binlogs'') (JString ''oss'')
              empty_sys)))))"
proof -
  let ?w = "example_world (\<lambda>cmd. 0) (\<lambda>k. real k * 10)
        (\<lambda>i. (0, ''1'' @ [CHR 0x09] @ ''36'' @ [CHR 0x09] @ ''Yes'' @ [CHR 0x09] @ ''Normal''))"
  let ?s1 = "snd (restore_steps (example_context Candidate) ?w JNull
                (JString ''backups/full.xbstream'') (JString ''binlogs'') (JString ''oss'') empty_sys)"
  have reached: "fst (restore_steps (example_context Candidate) ?w JNull
                (JString ''backups/full.xbstream'') (JString ''binlogs'') (JString ''oss'') empty_sys)
              = Inr ''37''"
    by (rule example_reaches_engine) simp_all
  have lagging: "check_binlog_apply_index_status (poll ?w i) ''37'' = Inr False" for i
    by (simp add: example_world_def check_binlog_apply_index_status_def py_index_def py_int_def
          py_strip_by_def int_isspace_def int_unsigned_def py_isdigit_def digit_val_def)
  have late: "clock ?w 0 + 48 * 60 * 60 \<le> clock ?w (Suc 17279)"
    by (simp add: example_world_def)
  have early: "\<forall>i<17279. clock ?w (Suc i) < clock ?w 0 + 48 * 60 * 60
                 \<and> check_binlog_apply_index_status (poll ?w i) ''37'' \<noteq> Inr True"
  proof (intro allI impI conjI)
    fix i :: nat
    assume "i < 17279"
    then have "real i < 17279" by simp
    then show "clock ?w (Suc i) < clock ?w 0 + 48 * 60 * 60"
      by (simp add: example_world_def)
    show "check_binlog_apply_index_status (poll ?w i) ''37'' \<noteq> Inr True"
      using lagging [of i] by simp
  qed
  have "wait_binlog_apply_ready ?w ''37'' (emit (Spawn Mysqld) ?s1)
           = Some (Inl (TimeoutError ''binlog apply timeout!''),
                   (one_pass ^^ 17279) (emit (Spawn Mysqld) ?s1))"
    using late early by (rule monitor_timeout)
  then have go: "start (example_context Candidate) ?w (example_params JNull) empty_sys
           = Some (Inl (TimeoutError ''binlog apply timeout!''),
                   (one_pass ^^ 17279) (emit (Spawn Mysqld) ?s1))"
    using start_after_steps [OF example_fields [of JNull] _ reached] by simp
  have "Kill \<notin> set (trace ?s1)"
    by (rule restore_steps_no_kill) (simp add: empty_sys_def)
  moreover have "WaitExit \<notin> set (trace ?s1)"
    by (rule restore_steps_no_wait) (simp add: empty_sys_def)
  ultimately have quiet: "Kill \<notin> set (trace ((one_pass ^^ 17279) (emit (Spawn Mysqld) ?s1)))
      \<and> WaitExit \<notin> set (trace ((one_pass ^^ 17279) (emit (Spawn Mysqld) ?s1)))"
    by (intro passes_no_kill) simp_all
  have started: "Spawn Mysqld \<in> set (trace ((one_pass ^^ 17279) (emit (Spawn Mysqld) ?s1)))"
    by (rule passes_keep_spawn) simp
  show ?thesis using go quiet started by blast
qed

text \<open>
  The same on the concrete node for a Learner: a run whose first pass finds the node
  ready goes on to kill, wait, sync and mark; a run whose monitor finds the deadline
  reached at once ends after the engine's start.
\<close>

lemma start_from_engine_on_example:
  "(\<exists>r s' es. start (example_context Learner)
        (example_world (\<lambda>cmd. 0) (\<lambda>k. real k)
           (\<lambda>i. (0, ''1'' @ [CHR 0x09] @ ''37'' @ [CHR 0x09] @ ''Yes'' @ [CHR 0x09] @ ''Normal'')))
        (example_params (JNumber 36)) empty_sys = Some (r, s')
      \<and> list_all preparatory es
      \<and> trace s' = trace empty_sys @ es @ [Spawn Mysqld] @ concat (replicate (Suc 0) [Sleep 10, Query])
           @ [Kill, WaitExit, Exec SyncMeta] @ (if r = Inr () then [MarkInitialized] else []))
   \<and> (\<exists>s' es. start (example_context Learner)
        (example_world (\<lambda>cmd. 0) (\<lambda>k. if k = 0 then 0 else 172800) (\<lambda>i. (0, [])))
        (example_params (JNumber 36)) empty_sys
          = Some (Inl (TimeoutError ''binlog apply timeout!''), s')
      \<and> list_all preparatory es
      \<and> trace s' = trace empty_sys @ es @ [Spawn Mysqld] @ concat (replicate 0 [Sleep 10, Query]))"
proof -
  let ?ready = "example_world (\<lambda>cmd. 0) (\<lambda>k. real k)
           (\<lambda>i. (0, ''1'' @ [CHR 0x09] @ ''37'' @ [CHR 0x09] @ ''Yes'' @ [CHR 0x09] @ ''Normal''))"
  let ?late = "example_world (\<lambda>cmd. 0) (\<lambda>k. if k = 0 then 0 else 172800) (\<lambda>i. (0, []))"
  have r1: "fst (restore_steps (example_context Learner) ?ready (JNumber 36)
                (JString ''backups/full.xbstream'') (JString ''binlogs'') (JString ''oss'') empty_sys)
              = Inr ''37''"
    by (rule example_reaches_engine) simp_all
  have r2: "fst (restore_steps (example_context Learner) ?late (JNumber 36)
                (JString ''backups/full.xbstream'') (JString ''binlogs'') (JString ''oss'') empty_sys)
              = Inr ''37''"
    by (rule example_reaches_engine) simp_all
  have c1: "clock ?ready (Suc 0) < clock ?ready 0 + 48 * 60 * 60
          \<and> check_binlog_apply_index_status (poll ?ready 0) ''37'' = Inr True"
    by (simp add: example_world_def check_binlog_apply_index_status_def py_index_def py_int_def
          py_strip_by_def int_isspace_def int_unsigned_def py_isdigit_def digit_val_def)
  have c2: "clock ?late 0 + 48 * 60 * 60 \<le> clock ?late (Suc 0)"
    by (simp add: example_world_def)
  show ?thesis
    using start_from_engine_on
        [OF example_fields [of "JNumber 36"] _ r1, of 0] c1
      start_from_engine_on
        [OF example_fields [of "JNumber 36"] _ r2, of 0] c2
    by simp
qed

text \<open>
  C3 makes a non-zero exit of the extraction and of the prepare/apply-log command fatal.
  The code does not: \<^verbatim>\<open>decompress_backup_file\<close> and \<^verbatim>\<open>apply_backup_file\<close> return normally
  whatever the environment gives as exit status, and on the concrete node, with both
  commands exiting with status 1, the phases run on through force-init and return the
  catch-up target.
\<close>

theorem shell_exit_status_ignored:
  "fst (decompress_backup_file w backup_file_name s) = Inr ()
   \<and> fst (apply_backup_file ctx w s) = Inr ()
   \<and> fst (restore_steps (example_context Candidate)
           (example_world
              (\<lambda>cmd. case cmd of ShellDecompress p \<Rightarrow> 1 | ShellPrepare \<Rightarrow> 1 | _ \<Rightarrow> 0)
              readings answers)
           commit_index (JString ''backups/full.xbstream'') (JString ''binlogs'') (JString ''oss'')
           s0)
       = Inr ''37''"
proof -
  have "fst (decompress_backup_file w backup_file_name s) = Inr ()"
    by (simp add: decompress_backup_file_def split_def Let_def)
  moreover have "fst (apply_backup_file ctx w s) = Inr ()"
    by (simp add: apply_backup_file_def split_def Let_def)
  moreover have "fst (restore_steps (example_context Candidate)
           (example_world
              (\<lambda>cmd. case cmd of ShellDecompress p \<Rightarrow> 1 | ShellPrepare \<Rightarrow> 1 | _ \<Rightarrow> 0)
              readings answers)
           commit_index (JString ''backups/full.xbstream'') (JString ''binlogs'') (JString ''oss'')
           s0)
       = Inr ''37''"
    by (rule example_reaches_engine) simp_all
  ultimately show ?thesis by simp
qed

end
